theory Spec2Isabelle
  imports Main "HOL-Library.Char_ord" "HOL-Library.List_Lexorder"
begin

section \<open>Data model of convert_health_data.py\<close>

text \<open>
  Every parser appends dictionaries with the five keys creationDate, startDate, endDate,
  type and value to one shared list. The first four are always Python strings. The value
  is a string in the attribute-XML and ECG parsers; the clinical-document parser stores
  the \<open>.text\<close> of an element there, which is \<open>None\<close> for an element without text, so
  the value field is an option: \<open>None\<close> is Python's None.
\<close>

record health_record =
  creationDate :: string
  startDate :: string
  endDate :: string
  rtype :: string
  rvalue :: "string option"

type_synonym identity_key = "string \<times> string \<times> string \<times> string \<times> string option"

text \<open>Lines printed to the console by the parsers and by the driver's warnings.\<close>

datatype log_msg =
    Processing string
  | Progress nat
  | ExtractedXml nat nat
  | WarnCdaMalformed
  | ExtractedCda nat
  | ProcessingEcg
  | WarnEcgFile
  | ExtractedEcg nat
  | WarnNotFound string
  | Sorting nat
  | Writing

text \<open>
  The state the driver shares with the three parsers: the list \<open>records\<close>, the set
  \<open>seen_keys\<close>, and the console output so far.
\<close>

record pstate =
  records :: "health_record list"
  seen_keys :: "identity_key set"
  console :: "log_msg list"

text \<open>
  An element as ElementTree delivers it at its end event: tag, attributes, text
  (\<open>None\<close> when the element has no character data) and child elements.
\<close>

datatype element =
  Element (tag: string) (attrib: "(string \<times> string) list") (elem_text: "string option")
    (children: "element list")

text \<open>
  \<open>ET.iterparse(filepath, events=('end',))\<close>: the elements in the order of their end
  events, and how the iteration stops: at the end of the document, or with
  \<open>ET.ParseError\<close> once the parser meets malformed XML.
\<close>

datatype stream_end = EndOfDocument | ParseError

type_synonym xml_file = "element list \<times> stream_end"

text \<open>
  A file \<open>ecg_*.csv\<close>: either opening or reading it raises, or its lines as Python's
  file iteration yields them.
\<close>

datatype ecg_file = Unreadable | Readable "string list"

text \<open>What the base directory holds: each source may be absent.\<close>

record inputs =
  export_xml :: "xml_file option"
  export_cda_xml :: "xml_file option"
  ecg_dir :: "ecg_file list option"

datatype error = UncaughtParseError

definition TARGET_TYPES :: "string set" where
  "TARGET_TYPES =
    {''HKQuantityTypeIdentifierStepCount'',
     ''HKQuantityTypeIdentifierActiveEnergyBurned'',
     ''HKQuantityTypeIdentifierHeartRate'',
     ''HKQuantityTypeIdentifierRestingHeartRate'',
     ''HKQuantityTypeIdentifierHeartRateVariabilitySDNN'',
     ''HKCategoryTypeIdentifierSleepAnalysis'',
     ''HKQuantityTypeIdentifierBodyMass'',
     ''HKQuantityTypeIdentifierBodyFatPercentage'',
     ''HKQuantityTypeIdentifierVO2Max'',
     ''HKQuantityTypeIdentifierRespiratoryRate'',
     ''HKCategoryTypeIdentifierAppleStandHour''}"

text \<open>\<open>elem.get(key, default)\<close> and \<open>elem.find(tag)\<close> (first direct child).\<close>

definition elem_get :: "element \<Rightarrow> string \<Rightarrow> string \<Rightarrow> string" where
  "elem_get elem k dflt = (case map_of (attrib elem) k of None \<Rightarrow> dflt | Some v \<Rightarrow> v)"

definition elem_find :: "element \<Rightarrow> string \<Rightarrow> element option" where
  "elem_find elem t = find (\<lambda>c. tag c = t) (children elem)"

definition identity_key_of :: "health_record \<Rightarrow> identity_key" where
  "identity_key_of r = (creationDate r, startDate r, endDate r, rtype r, rvalue r)"

section \<open>The date normalizer\<close>

subsection \<open>\<open>datetime.strptime(base, '%Y%m%d%H%M%S')\<close>\<close>

text \<open>
  The standard library compiles the format into the regular expression
  \<^verbatim>\<open>(?P<Y>\d\d\d\d)(?P<m>1[0-2]|0[1-9]|[1-9])(?P<d>3[0-1]|[1-2]\d|0[1-9]|[1-9]| [1-9])\<close>
  \<^verbatim>\<open>(?P<H>2[0-3]|[0-1]\d|\d)(?P<M>[0-5]\d|\d)(?P<S>6[0-1]|[0-5]\d|\d)\<close>,
  matches it at the start of the string, raises ValueError when there is no match or
  when the match leaves characters unconverted, converts the groups with \<open>int\<close> and
  builds a datetime, which raises ValueError for a date or time out of range.
  A matcher returns its matches (group, rest) in the order the backtracking engine
  tries them; the match the engine reports is the first of the combined list.
  Characters are 8-bit here, so the only digits are 0 to 9.
\<close>

record datetime =
  year :: nat
  month :: nat
  day :: nat
  hour :: nat
  minute :: nat
  second :: nat

definition is_digit :: "char \<Rightarrow> bool" where
  "is_digit c = (c \<in> set ''0123456789'')"

definition in_range :: "char \<Rightarrow> char \<Rightarrow> char \<Rightarrow> bool" where
  "in_range lo hi c = (is_digit c \<and> lo \<le> c \<and> c \<le> hi)"

fun alt2 :: "(char \<Rightarrow> bool) \<Rightarrow> (char \<Rightarrow> bool) \<Rightarrow> string \<Rightarrow> (string \<times> string) list" where
  "alt2 p q (a # b # r) = (if p a \<and> q b then [([a, b], r)] else [])"
| "alt2 p q _ = []"

fun alt1 :: "(char \<Rightarrow> bool) \<Rightarrow> string \<Rightarrow> (string \<times> string) list" where
  "alt1 p (a # r) = (if p a then [([a], r)] else [])"
| "alt1 p [] = []"

fun re_Y :: "string \<Rightarrow> (string \<times> string) list" where
  "re_Y (a # b # c # d # r) =
     (if is_digit a \<and> is_digit b \<and> is_digit c \<and> is_digit d then [([a, b, c, d], r)] else [])"
| "re_Y _ = []"

definition re_m :: "string \<Rightarrow> (string \<times> string) list" where
  "re_m s = alt2 (\<lambda>c. c = CHR ''1'') (in_range CHR ''0'' CHR ''2'') s
          @ alt2 (\<lambda>c. c = CHR ''0'') (in_range CHR ''1'' CHR ''9'') s
          @ alt1 (in_range CHR ''1'' CHR ''9'') s"

definition re_d :: "string \<Rightarrow> (string \<times> string) list" where
  "re_d s = alt2 (\<lambda>c. c = CHR ''3'') (in_range CHR ''0'' CHR ''1'') s
          @ alt2 (in_range CHR ''1'' CHR ''2'') is_digit s
          @ alt2 (\<lambda>c. c = CHR ''0'') (in_range CHR ''1'' CHR ''9'') s
          @ alt1 (in_range CHR ''1'' CHR ''9'') s
          @ alt2 (\<lambda>c. c = CHR '' '') (in_range CHR ''1'' CHR ''9'') s"

definition re_H :: "string \<Rightarrow> (string \<times> string) list" where
  "re_H s = alt2 (\<lambda>c. c = CHR ''2'') (in_range CHR ''0'' CHR ''3'') s
          @ alt2 (in_range CHR ''0'' CHR ''1'') is_digit s
          @ alt1 is_digit s"

definition re_M :: "string \<Rightarrow> (string \<times> string) list" where
  "re_M s = alt2 (in_range CHR ''0'' CHR ''5'') is_digit s
          @ alt1 is_digit s"

definition re_S :: "string \<Rightarrow> (string \<times> string) list" where
  "re_S s = alt2 (\<lambda>c. c = CHR ''6'') (in_range CHR ''0'' CHR ''1'') s
          @ alt2 (in_range CHR ''0'' CHR ''5'') is_digit s
          @ alt1 is_digit s"

definition re_matches ::
  "string \<Rightarrow> ((string \<times> string \<times> string \<times> string \<times> string \<times> string) \<times> string) list" where
  "re_matches s =
     concat (map (\<lambda>(gY, r1).
     concat (map (\<lambda>(gm, r2).
     concat (map (\<lambda>(gd, r3).
     concat (map (\<lambda>(gH, r4).
     concat (map (\<lambda>(gM, r5).
             map (\<lambda>(gS, r6). ((gY, gm, gd, gH, gM, gS), r6)) (re_S r5))
       (re_M r4))) (re_H r3))) (re_d r2))) (re_m r1))) (re_Y s))"

definition digit_val :: "char \<Rightarrow> nat" where
  "digit_val c = of_char c - 48"

text \<open>\<open>int(s)\<close> on a group of the expression: digits, after one leading space at most.\<close>

definition py_int :: "string \<Rightarrow> nat" where
  "py_int s = foldl (\<lambda>n c. 10 * n + digit_val c) 0 (dropWhile (\<lambda>c. c = CHR '' '') s)"

definition is_leap :: "nat \<Rightarrow> bool" where
  "is_leap y = (y mod 4 = 0 \<and> (y mod 100 \<noteq> 0 \<or> y mod 400 = 0))"

definition days_in_month :: "nat \<Rightarrow> nat \<Rightarrow> nat" where
  "days_in_month y m =
     (if m = 2 then (if is_leap y then 29 else 28)
      else if m \<in> {4, 6, 9, 11} then 30 else 31)"

definition valid_datetime :: "datetime \<Rightarrow> bool" where
  "valid_datetime dt =
     (1 \<le> year dt \<and> year dt \<le> 9999 \<and> 1 \<le> month dt \<and> month dt \<le> 12 \<and>
      1 \<le> day dt \<and> day dt \<le> days_in_month (year dt) (month dt) \<and>
      hour dt \<le> 23 \<and> minute dt \<le> 59 \<and> second dt \<le> 59)"

text \<open>\<open>None\<close> is the ValueError.\<close>

definition strptime :: "string \<Rightarrow> datetime option" where
  "strptime s =
     (case re_matches s of
        [] \<Rightarrow> None
      | ((gY, gm, gd, gH, gM, gS), rest) # _ \<Rightarrow>
          if rest \<noteq> [] then None
          else
            let dt = \<lparr>year = py_int gY, month = py_int gm, day = py_int gd,
                      hour = py_int gH, minute = py_int gM, second = py_int gS\<rparr>
            in if valid_datetime dt then Some dt else None)"

subsection \<open>\<open>dt.strftime('%Y-%m-%d %H:%M:%S')\<close>\<close>

text \<open>
  CPython hands the format to the C library. As CPython 3.11 prints it with glibc:
  \<open>%Y\<close> is the year in decimal with no padding, so a year below 1000 has fewer than
  four digits (the year 999 is printed as 999, the year 1 as 1); every other field is
  two digits, padded with a zero. \<open>pad4\<close> is the four-digit form a year of 1000 or
  more has.
\<close>

definition digit_char :: "nat \<Rightarrow> char" where
  "digit_char n = ''0123456789'' ! (n mod 10)"

definition pad2 :: "nat \<Rightarrow> string" where
  "pad2 n = [digit_char (n div 10), digit_char n]"

definition pad4 :: "nat \<Rightarrow> string" where
  "pad4 n = pad2 (n div 100) @ pad2 n"

fun decimal :: "nat \<Rightarrow> string" where
  "decimal n = (if n < 10 then [digit_char n] else decimal (n div 10) @ [digit_char n])"

definition strftime :: "datetime \<Rightarrow> string" where
  "strftime dt =
     decimal (year dt) @ ''-'' @ pad2 (month dt) @ ''-'' @ pad2 (day dt) @ '' '' @
     pad2 (hour dt) @ '':'' @ pad2 (minute dt) @ '':'' @ pad2 (second dt)"

subsection \<open>\<open>format_cda_date\<close> (lines 167 to 182)\<close>

definition format_cda_date :: "string \<Rightarrow> string" where
  "format_cda_date date_str =
     (if date_str = [] then []
      else if length date_str \<ge> 14 then
        (let base = take 14 date_str;
             tz = (if length date_str > 14 then drop 14 date_str else [])
         in case strptime base of
              None \<Rightarrow> date_str
            | Some dt \<Rightarrow>
                let formatted = strftime dt
                in if tz \<noteq> [] then formatted @ '' '' @ tz else formatted)
      else date_str)"

section \<open>The attribute-XML parser\<close>

text \<open>
  The loop body of \<open>parse_export_xml\<close> (lines 40 to 100) for one end event. The loop
  carries the shared state and the counters \<open>count\<close>, \<open>local_count\<close> and
  \<open>workout_count\<close>. \<open>elem.clear()\<close> empties the element just handled; no later
  iteration reads it again. \<open>join\<close> is \<open>sep.join(parts)\<close>; \<open>workout_value\<close> is the
  value computed in lines 72 to 82.
\<close>

fun join :: "string \<Rightarrow> string list \<Rightarrow> string" where
  "join sep [] = []"
| "join sep [x] = x"
| "join sep (x # y # ys) = x @ sep @ join sep (y # ys)"

definition workout_value :: "element \<Rightarrow> string" where
  "workout_value elem =
     (let duration = elem_get elem ''duration'' '''';
          duration_unit = elem_get elem ''durationUnit'' ''min'';
          total_energy = elem_get elem ''totalEnergyBurned'' '''';
          energy_unit = elem_get elem ''totalEnergyBurnedUnit'' ''Cal'';
          value_parts =
            (if duration \<noteq> [] then [''duration:'' @ duration @ '' '' @ duration_unit] else []) @
            (if total_energy \<noteq> [] then [''calories:'' @ total_energy @ '' '' @ energy_unit] else [])
      in if value_parts \<noteq> [] then join ''; '' value_parts else [])"

definition xml_event ::
  "element \<Rightarrow> pstate \<times> nat \<times> nat \<times> nat \<Rightarrow> pstate \<times> nat \<times> nat \<times> nat" where
  "xml_event elem = (\<lambda>(s, count, local_count, workout_count).
     if tag elem = ''Record'' then
       (case map_of (attrib elem) ''type'' of
          None \<Rightarrow> (s, count, local_count, workout_count)
        | Some record_type \<Rightarrow>
            if record_type \<in> TARGET_TYPES then
              (let creation_date = elem_get elem ''creationDate'' '''';
                   start_date = elem_get elem ''startDate'' '''';
                   end_date = elem_get elem ''endDate'' '''';
                   val = elem_get elem ''value'' '''';
                   key = (creation_date, start_date, end_date, record_type, Some val)
               in if key \<notin> seen_keys s then
                    (let s1 = s\<lparr>seen_keys := insert key (seen_keys s)\<rparr>;
                         s2 = s1\<lparr>records := records s1 @
                                [\<lparr>creationDate = creation_date, startDate = start_date,
                                  endDate = end_date, rtype = record_type,
                                  rvalue = Some val\<rparr>]\<rparr>;
                         s3 = (if (count + 1) mod 50000 = 0
                               then s2\<lparr>console := console s2 @ [Progress (count + 1)]\<rparr>
                               else s2)
                     in (s3, count + 1, local_count + 1, workout_count))
                  else (s, count, local_count, workout_count))
            else (s, count, local_count, workout_count))
     else if tag elem = ''Workout'' then
       (let workout_type = elem_get elem ''workoutActivityType'' '''';
            creation_date = elem_get elem ''creationDate'' '''';
            start_date = elem_get elem ''startDate'' '''';
            end_date = elem_get elem ''endDate'' '''';
            val = workout_value elem;
            key = (creation_date, start_date, end_date, workout_type, Some val)
        in if key \<notin> seen_keys s then
             (let s1 = s\<lparr>seen_keys := insert key (seen_keys s)\<rparr>;
                  s2 = s1\<lparr>records := records s1 @
                         [\<lparr>creationDate = creation_date, startDate = start_date,
                           endDate = end_date, rtype = workout_type,
                           rvalue = Some val\<rparr>]\<rparr>;
                  s3 = (if (count + 1) mod 50000 = 0
                        then s2\<lparr>console := console s2 @ [Progress (count + 1)]\<rparr>
                        else s2)
              in (s3, count + 1, local_count, workout_count + 1))
           else (s, count, local_count, workout_count))
     else (s, count, local_count, workout_count))"

text \<open>
  \<open>parse_export_xml\<close>: nothing catches the ParseError of a malformed export.xml, so it
  leaves the function (and the driver). The state is returned in both cases: the
  records appended before the error stay in the shared list.
\<close>

definition parse_export_xml :: "xml_file \<Rightarrow> pstate \<Rightarrow> pstate \<times> (error + nat)" where
  "parse_export_xml f s =
     (let s0 = s\<lparr>console := console s @ [Processing ''export.xml'']\<rparr>;
          (s', count, local_count, workout_count) = fold xml_event (fst f) (s0, 0, 0, 0)
      in case snd f of
           ParseError \<Rightarrow> (s', Inl UncaughtParseError)
         | EndOfDocument \<Rightarrow>
             (s'\<lparr>console := console s' @ [ExtractedXml local_count workout_count]\<rparr>,
              Inr count))"

section \<open>The clinical-document parser\<close>

text \<open>
  The loop body of \<open>parse_export_cda_xml\<close> (lines 118 to 159) for one end event;
  \<open>total_count\<close> is \<open>len(records)\<close> at the start of the call.
\<close>

definition cda_event :: "nat \<Rightarrow> element \<Rightarrow> pstate \<times> nat \<times> nat \<Rightarrow> pstate \<times> nat \<times> nat" where
  "cda_event total_count elem = (\<lambda>(s, count, local_count).
     if tag elem = ''{urn:hl7-org:v3}observation'' then
       (case elem_find elem ''{urn:hl7-org:v3}text'' of
          None \<Rightarrow> (s, count, local_count)
        | Some text_elem \<Rightarrow>
            (case elem_find text_elem ''{urn:hl7-org:v3}type'' of
               None \<Rightarrow> (s, count, local_count)
             | Some type_elem \<Rightarrow>
                 (case elem_text type_elem of
                    None \<Rightarrow> (s, count, local_count)
                  | Some record_type \<Rightarrow>
                      if record_type \<in> TARGET_TYPES then
                        (let val = (case elem_find text_elem ''{urn:hl7-org:v3}value'' of
                                      Some value_elem \<Rightarrow> elem_text value_elem
                                    | None \<Rightarrow> Some []);
                             (start_date, end_date) =
                               (case elem_find elem ''{urn:hl7-org:v3}effectiveTime'' of
                                  None \<Rightarrow> ([], [])
                                | Some effective_time \<Rightarrow>
                                    ((case elem_find effective_time ''{urn:hl7-org:v3}low'' of
                                        Some low \<Rightarrow> format_cda_date (elem_get low ''value'' '''')
                                      | None \<Rightarrow> []),
                                     (case elem_find effective_time ''{urn:hl7-org:v3}high'' of
                                        Some high \<Rightarrow> format_cda_date (elem_get high ''value'' '''')
                                      | None \<Rightarrow> [])));
                             creation_date = start_date;
                             key = (creation_date, start_date, end_date, record_type, val)
                         in if key \<notin> seen_keys s then
                              (let s1 = s\<lparr>seen_keys := insert key (seen_keys s)\<rparr>;
                                   s2 = s1\<lparr>records := records s1 @
                                          [\<lparr>creationDate = creation_date, startDate = start_date,
                                            endDate = end_date, rtype = record_type,
                                            rvalue = val\<rparr>]\<rparr>;
                                   s3 = (if (total_count + (count + 1)) mod 50000 = 0
                                         then s2\<lparr>console := console s2 @
                                                [Progress (total_count + (count + 1))]\<rparr>
                                         else s2)
                               in (s3, count + 1, local_count + 1))
                            else (s, count, local_count))
                      else (s, count, local_count))))
     else (s, count, local_count))"

text \<open>
  \<open>parse_export_cda_xml\<close>: the loop runs inside \<open>try\<close>; \<open>except ET.ParseError\<close> prints
  the two warning lines (one message here) and the function goes on to its last two
  lines. The result type is the one of \<open>parse_export_xml\<close>; \<open>Inl\<close> would be an
  exception leaving the function.
\<close>

definition parse_export_cda_xml :: "xml_file \<Rightarrow> pstate \<Rightarrow> pstate \<times> (error + nat)" where
  "parse_export_cda_xml f s =
     (let s0 = s\<lparr>console := console s @ [Processing ''export_cda.xml'']\<rparr>;
          total_count = length (records s0);
          (s1, count, local_count) = fold (cda_event total_count) (fst f) (s0, 0, 0);
          s2 = (case snd f of
                  ParseError \<Rightarrow> s1\<lparr>console := console s1 @ [WarnCdaMalformed]\<rparr>
                | EndOfDocument \<Rightarrow> s1)
      in (s2\<lparr>console := console s2 @ [ExtractedCda local_count]\<rparr>, Inr count))"

section \<open>The session-metadata parser\<close>

text \<open>
  \<open>str.strip()\<close> removes the characters for which \<open>str.isspace\<close> holds (among the
  first 256 code points: 9 to 13, 28 to 32, 133 and 160); \<open>strip('"')\<close> removes double
  quotes; \<open>line.split(',', 1)\<close> on a line that holds a comma gives the part before the
  first comma and the part after it.
\<close>

definition is_space :: "char \<Rightarrow> bool" where
  "is_space c = ((of_char c :: nat) \<in> {9, 10, 11, 12, 13, 28, 29, 30, 31, 32, 133, 160})"

definition strip_with :: "(char \<Rightarrow> bool) \<Rightarrow> string \<Rightarrow> string" where
  "strip_with p s = rev (dropWhile p (rev (dropWhile p s)))"

definition strip :: "string \<Rightarrow> string" where
  "strip s = strip_with is_space s"

definition strip_quotes :: "string \<Rightarrow> string" where
  "strip_quotes s = strip_with (\<lambda>c. c = CHR 0x22) s"

definition split_comma :: "string \<Rightarrow> string \<times> string" where
  "split_comma line =
     (takeWhile (\<lambda>c. c \<noteq> CHR '','') line, tl (dropWhile (\<lambda>c. c \<noteq> CHR '','') line))"

text \<open>Lines 195 to 207: the first eleven lines, stripped, and the dictionary built from them.\<close>

definition ecg_lines :: "string list \<Rightarrow> string list" where
  "ecg_lines f = map strip (take 11 f)"

definition ecg_metadata :: "string list \<Rightarrow> (string \<rightharpoonup> string)" where
  "ecg_metadata lines =
     fold (\<lambda>line metadata.
             if CHR '','' \<in> set line then
               (let parts = split_comma line;
                    k = strip (fst parts);
                    v = strip_quotes (strip (snd parts))
                in metadata(k \<mapsto> v))
             else metadata)
          lines Map.empty"

definition dict_get :: "(string \<rightharpoonup> string) \<Rightarrow> string \<Rightarrow> string \<Rightarrow> string" where
  "dict_get d k dflt = (case d k of None \<Rightarrow> dflt | Some v \<Rightarrow> v)"

text \<open>The loop body of \<open>parse_ecg_files\<close> (lines 193 to 228) for one file.\<close>

definition ecg_file_step :: "nat \<Rightarrow> ecg_file \<Rightarrow> pstate \<times> nat \<Rightarrow> pstate \<times> nat" where
  "ecg_file_step total_count file = (\<lambda>(s, count).
     case file of
       Unreadable \<Rightarrow> (s\<lparr>console := console s @ [WarnEcgFile]\<rparr>, count)
     | Readable f \<Rightarrow>
         (let lines = ecg_lines f;
              metadata = ecg_metadata lines;
              recorded_date = dict_get metadata ''Recorded Date'' '''';
              classification = dict_get metadata ''Classification'' ''''
          in if recorded_date \<noteq> [] then
               (let record_key = (recorded_date, recorded_date, recorded_date, ''ECG'',
                                  Some classification)
                in if record_key \<notin> seen_keys s then
                     (let s1 = s\<lparr>seen_keys := insert record_key (seen_keys s)\<rparr>;
                          s2 = s1\<lparr>records := records s1 @
                                 [\<lparr>creationDate = recorded_date, startDate = recorded_date,
                                   endDate = recorded_date, rtype = ''ECG'',
                                   rvalue = Some classification\<rparr>]\<rparr>;
                          s3 = (if (total_count + (count + 1)) mod 50000 = 0
                                then s2\<lparr>console := console s2 @
                                       [Progress (total_count + (count + 1))]\<rparr>
                                else s2)
                      in (s3, count + 1))
                   else (s, count))
             else (s, count)))"

definition parse_ecg_files :: "ecg_file list \<Rightarrow> pstate \<Rightarrow> pstate \<times> (error + nat)" where
  "parse_ecg_files ecg_files s =
     (let s0 = s\<lparr>console := console s @ [ProcessingEcg]\<rparr>;
          total_count = length (records s0);
          (s1, count) = fold (ecg_file_step total_count) ecg_files (s0, 0)
      in (s1\<lparr>console := console s1 @ [ExtractedEcg count]\<rparr>, Inr count))"

section \<open>The driver\<close>

text \<open>
  \<open>main\<close> up to the sort (lines 241 to 268) and the rows it hands to the CSV writer.
  The result is the final state with \<open>total_count\<close>, or the state at the moment an
  exception left \<open>main\<close>. \<open>records.sort(key=...)\<close> is a stable sort on the startDate
  strings, compared code point by code point.
\<close>

definition initial_state :: pstate where
  "initial_state = \<lparr>records = [], seen_keys = {}, console = []\<rparr>"

definition run_source ::
  "string \<Rightarrow> 'a option \<Rightarrow> ('a \<Rightarrow> pstate \<Rightarrow> pstate \<times> (error + nat)) \<Rightarrow> pstate \<Rightarrow> pstate \<times> (error + nat)" where
  "run_source name src parser s =
     (case src of
        Some f \<Rightarrow> parser f s
      | None \<Rightarrow> (s\<lparr>console := console s @ [WarnNotFound name]\<rparr>, Inr 0))"

definition main :: "inputs \<Rightarrow> pstate \<times> (error + nat)" where
  "main inp =
     (case run_source ''export.xml'' (export_xml inp) parse_export_xml initial_state of
        (s1, Inl e) \<Rightarrow> (s1, Inl e)
      | (s1, Inr c1) \<Rightarrow>
     (case run_source ''export_cda.xml'' (export_cda_xml inp) parse_export_cda_xml s1 of
        (s2, Inl e) \<Rightarrow> (s2, Inl e)
      | (s2, Inr c2) \<Rightarrow>
     (case run_source ''electrocardiograms'' (ecg_dir inp) parse_ecg_files s2 of
        (s3, Inl e) \<Rightarrow> (s3, Inl e)
      | (s3, Inr c3) \<Rightarrow>
          (let total_count = 0 + c1 + c2 + c3;
               s4 = s3\<lparr>console := console s3 @ [Sorting (length (records s3))]\<rparr>;
               s5 = s4\<lparr>records := sort_key startDate (records s4)\<rparr>
           in (s5\<lparr>console := console s5 @ [Writing]\<rparr>, Inr total_count)))))"

text \<open>
  The cells \<open>csv.DictWriter\<close> writes for one record, before quoting: the five fields in
  the order of \<open>fieldnames\<close>, with None written as the empty string.
\<close>

definition csv_row :: "health_record \<Rightarrow> string list" where
  "csv_row r =
     [creationDate r, startDate r, endDate r, rtype r,
      (case rvalue r of None \<Rightarrow> [] | Some v \<Rightarrow> v)]"

definition output_rows :: "inputs \<Rightarrow> string list list" where
  "output_rows inp = map csv_row (records (fst (main inp)))"

section \<open>Notions used to state the properties\<close>

text \<open>
  The record an event offers to the shared list, before the test against \<open>seen_keys\<close>:
  the fields each loop body computes (lines 41 to 47 and 68 to 82, lines 118 to 141,
  lines 195 to 213), or \<open>None\<close> when the body skips the event.
\<close>

definition xml_observation :: "element \<Rightarrow> health_record option" where
  "xml_observation elem =
     (if tag elem = ''Record'' then
        (case map_of (attrib elem) ''type'' of
           None \<Rightarrow> None
         | Some record_type \<Rightarrow>
             if record_type \<in> TARGET_TYPES then
               Some \<lparr>creationDate = elem_get elem ''creationDate'' '''',
                     startDate = elem_get elem ''startDate'' '''',
                     endDate = elem_get elem ''endDate'' '''',
                     rtype = record_type,
                     rvalue = Some (elem_get elem ''value'' '''')\<rparr>
             else None)
      else if tag elem = ''Workout'' then
        Some \<lparr>creationDate = elem_get elem ''creationDate'' '''',
              startDate = elem_get elem ''startDate'' '''',
              endDate = elem_get elem ''endDate'' '''',
              rtype = elem_get elem ''workoutActivityType'' '''',
              rvalue = Some (workout_value elem)\<rparr>
      else None)"

definition cda_dates :: "element \<Rightarrow> string \<times> string" where
  "cda_dates elem =
     (case elem_find elem ''{urn:hl7-org:v3}effectiveTime'' of
        None \<Rightarrow> ([], [])
      | Some effective_time \<Rightarrow>
          ((case elem_find effective_time ''{urn:hl7-org:v3}low'' of
              Some low \<Rightarrow> format_cda_date (elem_get low ''value'' '''')
            | None \<Rightarrow> []),
           (case elem_find effective_time ''{urn:hl7-org:v3}high'' of
              Some high \<Rightarrow> format_cda_date (elem_get high ''value'' '''')
            | None \<Rightarrow> [])))"

definition cda_observation :: "element \<Rightarrow> health_record option" where
  "cda_observation elem =
     (if tag elem = ''{urn:hl7-org:v3}observation'' then
        (case elem_find elem ''{urn:hl7-org:v3}text'' of
           None \<Rightarrow> None
         | Some text_elem \<Rightarrow>
             (case elem_find text_elem ''{urn:hl7-org:v3}type'' of
                None \<Rightarrow> None
              | Some type_elem \<Rightarrow>
                  (case elem_text type_elem of
                     None \<Rightarrow> None
                   | Some record_type \<Rightarrow>
                       if record_type \<in> TARGET_TYPES then
                         Some \<lparr>creationDate = fst (cda_dates elem),
                               startDate = fst (cda_dates elem),
                               endDate = snd (cda_dates elem),
                               rtype = record_type,
                               rvalue = (case elem_find text_elem ''{urn:hl7-org:v3}value'' of
                                           Some value_elem \<Rightarrow> elem_text value_elem
                                         | None \<Rightarrow> Some [])\<rparr>
                       else None)))
      else None)"

definition ecg_observation :: "ecg_file \<Rightarrow> health_record option" where
  "ecg_observation file =
     (case file of
        Unreadable \<Rightarrow> None
      | Readable f \<Rightarrow>
          (let metadata = ecg_metadata (ecg_lines f);
               recorded_date = dict_get metadata ''Recorded Date'' ''''
           in if recorded_date \<noteq> [] then
                Some \<lparr>creationDate = recorded_date, startDate = recorded_date,
                      endDate = recorded_date, rtype = ''ECG'',
                      rvalue = Some (dict_get metadata ''Classification'' '''')\<rparr>
              else None))"

text \<open>
  The shared dedup path, on the pair of the list and the index: a record whose key is in
  the index is dropped; otherwise the key is added and the record appended.
\<close>

fun offer ::
  "health_record option \<Rightarrow> health_record list \<times> identity_key set \<Rightarrow>
   health_record list \<times> identity_key set" where
  "offer None st = st"
| "offer (Some r) (rs, ks) =
     (if identity_key_of r \<in> ks then (rs, ks) else (rs @ [r], insert (identity_key_of r) ks))"

definition store :: "pstate \<Rightarrow> health_record list \<times> identity_key set" where
  "store s = (records s, seen_keys s)"

text \<open>
  The list and the index are in bijection: the keys of the records are pairwise
  different, and they are the members of the index.
\<close>

definition in_bijection :: "health_record list \<times> identity_key set \<Rightarrow> bool" where
  "in_bijection st =
     (distinct (map identity_key_of (fst st)) \<and> set (map identity_key_of (fst st)) = snd st)"

text \<open>The observations the three sources offer, in the order the driver reads them.\<close>

definition observations :: "inputs \<Rightarrow> health_record list" where
  "observations inp =
     (case export_xml inp of None \<Rightarrow> [] | Some f \<Rightarrow> List.map_filter xml_observation (fst f)) @
     (case export_cda_xml inp of None \<Rightarrow> [] | Some f \<Rightarrow> List.map_filter cda_observation (fst f)) @
     (case ecg_dir inp of None \<Rightarrow> [] | Some fs \<Rightarrow> List.map_filter ecg_observation fs)"

section \<open>A concrete run\<close>

text \<open>
  Three sources that overlap: the step count of export.xml is also in export_cda.xml,
  whose parse ends with an error after two observations, and two session files carry
  the same recording; one session file cannot be read.
\<close>

definition example_xml :: "element list" where
  "example_xml =
     [Element ''Record''
        [(''type'', ''HKQuantityTypeIdentifierStepCount''),
         (''creationDate'', ''2023-06-15 14:30:00''),
         (''startDate'', ''2023-06-15 14:30:00''),
         (''endDate'', ''2023-06-15 14:31:00''),
         (''value'', ''42'')] None [],
      Element ''Record''
        [(''type'', ''HKQuantityTypeIdentifierDietaryWater''),
         (''startDate'', ''2023-06-15 15:00:00''),
         (''value'', ''1'')] None [],
      Element ''Workout''
        [(''workoutActivityType'', ''HKWorkoutActivityTypeRunning''),
         (''startDate'', ''2023-02-01 07:00:00''),
         (''duration'', ''30''), (''durationUnit'', ''min''),
         (''totalEnergyBurned'', ''250''), (''totalEnergyBurnedUnit'', ''Cal'')] None []]"

definition example_cda :: "element list" where
  "example_cda =
     [Element ''{urn:hl7-org:v3}observation'' [] None
        [Element ''{urn:hl7-org:v3}text'' [] None
           [Element ''{urn:hl7-org:v3}type'' [] (Some ''HKQuantityTypeIdentifierStepCount'') [],
            Element ''{urn:hl7-org:v3}value'' [] (Some ''42'') []],
         Element ''{urn:hl7-org:v3}effectiveTime'' [] None
           [Element ''{urn:hl7-org:v3}low'' [(''value'', ''20230615143000'')] None [],
            Element ''{urn:hl7-org:v3}high'' [(''value'', ''20230615143100'')] None []]],
      Element ''{urn:hl7-org:v3}observation'' [] None
        [Element ''{urn:hl7-org:v3}text'' [] None
           [Element ''{urn:hl7-org:v3}type'' [] (Some ''HKQuantityTypeIdentifierHeartRate'') [],
            Element ''{urn:hl7-org:v3}value'' [] (Some ''61'') []],
         Element ''{urn:hl7-org:v3}effectiveTime'' [] None
           [Element ''{urn:hl7-org:v3}low'' [(''value'', ''20230101080000+0100'')] None []]]]"

definition example_ecg :: "ecg_file list" where
  "example_ecg =
     [Unreadable,
      Readable [''Name,Ann'', ''Recorded Date,2023-03-05 09:10:11 +0100'',
                ''Classification,Sinus Rhythm''],
      Readable [''Recorded Date,2023-03-05 09:10:11 +0100'' @ [CHR 0x0A],
                ''Classification, '' @ [CHR 0x22] @ ''Sinus Rhythm'' @ [CHR 0x22, CHR 0x0A]]]"

definition example_inputs :: inputs where
  "example_inputs =
     \<lparr>export_xml = Some (example_xml, EndOfDocument),
      export_cda_xml = Some (example_cda, ParseError),
      ecg_dir = Some example_ecg\<rparr>"

definition example_steps :: health_record where
  "example_steps =
     \<lparr>creationDate = ''2023-06-15 14:30:00'', startDate = ''2023-06-15 14:30:00'',
      endDate = ''2023-06-15 14:31:00'', rtype = ''HKQuantityTypeIdentifierStepCount'',
      rvalue = Some ''42''\<rparr>"

definition example_workout :: health_record where
  "example_workout =
     \<lparr>creationDate = [], startDate = ''2023-02-01 07:00:00'', endDate = [],
      rtype = ''HKWorkoutActivityTypeRunning'',
      rvalue = Some ''duration:30 min; calories:250 Cal''\<rparr>"

definition example_heart :: health_record where
  "example_heart =
     \<lparr>creationDate = ''2023-01-01 08:00:00 +0100'', startDate = ''2023-01-01 08:00:00 +0100'',
      endDate = [], rtype = ''HKQuantityTypeIdentifierHeartRate'', rvalue = Some ''61''\<rparr>"

definition example_session :: health_record where
  "example_session =
     \<lparr>creationDate = ''2023-03-05 09:10:11 +0100'', startDate = ''2023-03-05 09:10:11 +0100'',
      endDate = ''2023-03-05 09:10:11 +0100'', rtype = ''ECG'', rvalue = Some ''Sinus Rhythm''\<rparr>"


text \<open>
  Two observations that differ only in their value element: \<open><value></value>\<close>, whose
  text ElementTree reports as None, and no value element at all.
\<close>

definition example_empty_value :: element where
  "example_empty_value =
     Element ''{urn:hl7-org:v3}observation'' [] None
       [Element ''{urn:hl7-org:v3}text'' [] None
          [Element ''{urn:hl7-org:v3}type'' [] (Some ''HKQuantityTypeIdentifierHeartRate'') [],
           Element ''{urn:hl7-org:v3}value'' [] None []],
        Element ''{urn:hl7-org:v3}effectiveTime'' [] None
          [Element ''{urn:hl7-org:v3}low'' [(''value'', ''20230615143000'')] None []]]"

definition example_no_value :: element where
  "example_no_value =
     Element ''{urn:hl7-org:v3}observation'' [] None
       [Element ''{urn:hl7-org:v3}text'' [] None
          [Element ''{urn:hl7-org:v3}type'' [] (Some ''HKQuantityTypeIdentifierHeartRate'') []],
        Element ''{urn:hl7-org:v3}effectiveTime'' [] None
          [Element ''{urn:hl7-org:v3}low'' [(''value'', ''20230615143000'')] None []]]"

definition example_rate :: "string option \<Rightarrow> health_record" where
  "example_rate v =
     \<lparr>creationDate = ''2023-06-15 14:30:00'', startDate = ''2023-06-15 14:30:00'',
      endDate = [], rtype = ''HKQuantityTypeIdentifierHeartRate'', rvalue = v\<rparr>"

text \<open>
  The workout value as claim C6 words it, with a part for every attribute that is
  present, whatever its text; and the reading the code implements, with a part for every
  attribute that is present and not empty.
\<close>

definition claimed_workout_value :: "element \<Rightarrow> string" where
  "claimed_workout_value elem =
     join ''; ''
       ((case map_of (attrib elem) ''duration'' of
           None \<Rightarrow> []
         | Some d \<Rightarrow> [''duration:'' @ d @ '' '' @ elem_get elem ''durationUnit'' ''min'']) @
        (case map_of (attrib elem) ''totalEnergyBurned'' of
           None \<Rightarrow> []
         | Some c \<Rightarrow> [''calories:'' @ c @ '' '' @ elem_get elem ''totalEnergyBurnedUnit'' ''Cal'']))"

definition nonempty_attr :: "element \<Rightarrow> string \<Rightarrow> string option" where
  "nonempty_attr elem k =
     (case map_of (attrib elem) k of
        None \<Rightarrow> None
      | Some v \<Rightarrow> if v = [] then None else Some v)"

definition example_empty_duration :: element where
  "example_empty_duration =
     Element ''Workout''
       [(''workoutActivityType'', ''HKWorkoutActivityTypeYoga''), (''duration'', '''')] None []"

text \<open>
  A session file whose header holds the Recorded Date key with nothing after the comma.
\<close>

definition example_empty_recorded_date :: ecg_file where
  "example_empty_recorded_date =
     Readable [''Name,Ann'' @ [CHR 0x0A], ''Recorded Date,'' @ [CHR 0x0A],
               ''Classification,Sinus Rhythm'' @ [CHR 0x0A]]"



section \<open>The date normalizer: proofs\<close>

lemma alt2_mem: "(g, r) \<in> set (alt2 p q s) \<Longrightarrow> s = g @ r \<and> length g = 2"
  by (induction p q s rule: alt2.induct) (auto split: if_splits)

lemma alt1_mem: "(g, r) \<in> set (alt1 p s) \<Longrightarrow> s = g @ r \<and> length g = 1"
  by (induction p s rule: alt1.induct) (auto split: if_splits)

lemma re_Y_mem: "(g, r) \<in> set (re_Y s) \<Longrightarrow> s = g @ r \<and> length g = 4"
  by (induction s rule: re_Y.induct) (auto split: if_splits)

lemma re_m_mem: "(g, r) \<in> set (re_m s) \<Longrightarrow> s = g @ r \<and> length g \<le> 2"
  by (auto simp: re_m_def dest: alt2_mem alt1_mem)

lemma re_d_mem: "(g, r) \<in> set (re_d s) \<Longrightarrow> s = g @ r \<and> length g \<le> 2"
  by (auto simp: re_d_def dest: alt2_mem alt1_mem)

lemma re_H_mem: "(g, r) \<in> set (re_H s) \<Longrightarrow> s = g @ r \<and> length g \<le> 2"
  by (auto simp: re_H_def dest: alt2_mem alt1_mem)

lemma re_M_mem: "(g, r) \<in> set (re_M s) \<Longrightarrow> s = g @ r \<and> length g \<le> 2"
  by (auto simp: re_M_def dest: alt2_mem alt1_mem)

lemma re_S_mem: "(g, r) \<in> set (re_S s) \<Longrightarrow> s = g @ r \<and> length g \<le> 2"
  by (auto simp: re_S_def dest: alt2_mem alt1_mem)

lemma re_matches_mem:
  assumes "((gY, gm, gd, gH, gM, gS), rest) \<in> set (re_matches s)"
  shows "s = gY @ gm @ gd @ gH @ gM @ gS @ rest \<and> length gY = 4 \<and> length gm \<le> 2 \<and>
         length gd \<le> 2 \<and> length gH \<le> 2 \<and> length gM \<le> 2 \<and> length gS \<le> 2"
proof -
  from assms obtain r1 r2 r3 r4 r5 where
    "(gY, r1) \<in> set (re_Y s)" "(gm, r2) \<in> set (re_m r1)" "(gd, r3) \<in> set (re_d r2)"
    "(gH, r4) \<in> set (re_H r3)" "(gM, r5) \<in> set (re_M r4)" "(gS, rest) \<in> set (re_S r5)"
    by (auto simp: re_matches_def)
  then show ?thesis
    using re_Y_mem re_m_mem re_d_mem re_H_mem re_M_mem re_S_mem by blast
qed

lemma digit_not_space: "is_digit c \<Longrightarrow> c \<noteq> CHR '' ''"
  by (auto simp: is_digit_def)

lemma digit_val_lt: "is_digit c \<Longrightarrow> digit_val c < 10"
  by (auto simp: is_digit_def digit_val_def)

lemma digit_char_val: "is_digit c \<Longrightarrow> digit_char (digit_val c) = c"
  by (auto simp: is_digit_def digit_val_def digit_char_def)

lemma digit_char_add: "y < 10 \<Longrightarrow> digit_char (10 * x + y) = digit_char y"
  by (simp add: digit_char_def)

lemma pad2_py_int:
  assumes "length g = 2" "\<forall>c\<in>set g. is_digit c"
  shows "pad2 (py_int g) = g"
proof -
  from assms(1) obtain a b where g: "g = [a, b]"
    by (auto simp: length_Suc_conv numeral_2_eq_2)
  with assms(2) have d: "is_digit a" "is_digit b" by auto
  have "py_int g = 10 * digit_val a + digit_val b"
    using d by (simp add: g py_int_def digit_not_space)
  then show ?thesis
    using d digit_val_lt [OF d(1)] digit_val_lt [OF d(2)]
    by (simp add: pad2_def g digit_char_add digit_char_val)
qed

lemma pad4_py_int:
  assumes "length g = 4" "\<forall>c\<in>set g. is_digit c"
  shows "pad4 (py_int g) = g"
proof -
  from assms(1) obtain a b c d where g: "g = [a, b, c, d]"
    by (auto simp: length_Suc_conv numeral_eq_Suc)
  with assms(2) have dg: "is_digit a" "is_digit b" "is_digit c" "is_digit d" by auto
  define x where "x = 10 * digit_val a + digit_val b"
  define y where "y = 10 * digit_val c + digit_val d"
  have n: "py_int [a, b, c, d] = 100 * x + y"
    using dg by (simp add: py_int_def digit_not_space x_def y_def)
  have y: "y < 100"
    using digit_val_lt [OF dg(3)] digit_val_lt [OF dg(4)] by (simp add: y_def)
  have p: "pad2 x = [a, b]" "pad2 y = [c, d]"
    using pad2_py_int [of "[a, b]"] pad2_py_int [of "[c, d]"] dg
    by (simp_all add: x_def y_def py_int_def digit_not_space)
  have "(100 * x + y) div 100 = x" using y by simp
  moreover have "pad2 (100 * x + y) = pad2 y"
  proof -
    have "(100 * x + y) div 10 = 10 * x + y div 10" by simp
    then have "(100 * x + y) div 10 mod 10 = y div 10 mod 10" by simp
    moreover have "100 * x + y = 10 * (10 * x) + y" by simp
    then have "(100 * x + y) mod 10 = y mod 10" by (simp only: mod_mult_self4)
    ultimately show ?thesis
      by (simp add: pad2_def digit_char_def)
  qed
  ultimately have "pad4 (100 * x + y) = pad2 x @ pad2 y" by (simp only: pad4_def)
  then show ?thesis by (simp only: g n p append.simps)
qed

declare decimal.simps [simp del]

lemma decimal_pad4:
  assumes "1000 \<le> n" "n < 10000"
  shows "decimal n = pad4 n"
proof -
  have a: "\<not> n < 10" "\<not> n div 10 < 10" "\<not> n div 10 div 10 < 10" "n div 10 div 10 div 10 < 10"
    using assms by simp_all
  have "decimal n =
      [digit_char (n div 10 div 10 div 10), digit_char (n div 10 div 10), digit_char (n div 10),
       digit_char n]"
    by (subst decimal.simps, simp only: a if_False, subst decimal.simps, simp only: a if_False,
        subst decimal.simps, simp only: a if_False, subst decimal.simps, simp only: a if_True)
      simp
  moreover have "n div 100 = n div (10 * 10)" by simp
  then have h: "n div 100 = n div 10 div 10" by (simp only: div_mult2_eq)
  ultimately show ?thesis by (simp only: pad4_def pad2_def h append.simps)
qed

lemma strptime_digits:
  assumes len: "length s = 14" and dig: "\<forall>c\<in>set s. is_digit c" and ok: "strptime s = Some dt"
    and yr: "1000 \<le> year dt"
  shows "strftime dt =
           take 4 s @ ''-'' @ take 2 (drop 4 s) @ ''-'' @ take 2 (drop 6 s) @ '' '' @
           take 2 (drop 8 s) @ '':'' @ take 2 (drop 10 s) @ '':'' @ take 2 (drop 12 s)"
proof -
  from ok obtain gY gm gd gH gM gS ms where
    m: "re_matches s = ((gY, gm, gd, gH, gM, gS), []) # ms" and
    dt: "dt = \<lparr>year = py_int gY, month = py_int gm, day = py_int gd,
              hour = py_int gH, minute = py_int gM, second = py_int gS\<rparr>" and
    v: "valid_datetime dt"
    by (auto simp: strptime_def Let_def split: list.splits if_splits)
  from v yr dt have y4: "decimal (py_int gY) = pad4 (py_int gY)"
    by (intro decimal_pad4) (simp_all add: valid_datetime_def)
  from m have "((gY, gm, gd, gH, gM, gS), []) \<in> set (re_matches s)" by simp
  from re_matches_mem [OF this] have
    s: "s = gY @ gm @ gd @ gH @ gM @ gS" and
    l: "length gY = 4" "length gm \<le> 2" "length gd \<le> 2" "length gH \<le> 2" "length gM \<le> 2"
       "length gS \<le> 2"
    by simp_all
  have "length gY + length gm + length gd + length gH + length gM + length gS = 14"
    using len by (subst (asm) s) simp
  with l have l2: "length gm = 2" "length gd = 2" "length gH = 2" "length gM = 2" "length gS = 2"
    by arith+
  have d: "\<forall>c\<in>set gY. is_digit c" "\<forall>c\<in>set gm. is_digit c" "\<forall>c\<in>set gd. is_digit c"
    "\<forall>c\<in>set gH. is_digit c" "\<forall>c\<in>set gM. is_digit c" "\<forall>c\<in>set gS. is_digit c"
    using dig by (subst (asm) s, simp add: ball_Un)+
  have parts: "take 4 s = gY" "take 2 (drop 4 s) = gm" "take 2 (drop 6 s) = gd"
    "take 2 (drop 8 s) = gH" "take 2 (drop 10 s) = gM" "take 2 (drop 12 s) = gS"
    using l(1) l2 by (subst s, simp)+
  show ?thesis
    unfolding parts
    by (simp add: strftime_def dt y4 pad4_py_int [OF l(1) d(1)] pad2_py_int [OF l2(1) d(2)]
        pad2_py_int [OF l2(2) d(3)] pad2_py_int [OF l2(3) d(4)] pad2_py_int [OF l2(4) d(5)]
        pad2_py_int [OF l2(5) d(6)])
qed


lemma format_cda_date_empty: "format_cda_date [] = []"
  by (simp add: format_cda_date_def)

lemma format_cda_date_short: "length s < 14 \<Longrightarrow> format_cda_date s = s"
  by (simp add: format_cda_date_def)

lemma format_cda_date_unparsed: "strptime (take 14 s) = None \<Longrightarrow> format_cda_date s = s"
  by (simp add: format_cda_date_def)

lemma format_cda_date_parsed:
  "14 \<le> length s \<Longrightarrow> strptime (take 14 s) = Some dt \<Longrightarrow>
   format_cda_date s = strftime dt @ (if drop 14 s = [] then [] else '' '' @ drop 14 s)"
  by (auto simp: format_cda_date_def)

lemma format_cda_date_digits:
  assumes "14 \<le> length s" "\<forall>c\<in>set (take 14 s). is_digit c"
    and dt: "strptime (take 14 s) = Some dt" and yr: "1000 \<le> year dt"
  shows "format_cda_date s =
           take 4 s @ ''-'' @ take 2 (drop 4 s) @ ''-'' @ take 2 (drop 6 s) @ '' '' @
           take 2 (drop 8 s) @ '':'' @ take 2 (drop 10 s) @ '':'' @ take 2 (drop 12 s) @
           (if drop 14 s = [] then [] else '' '' @ drop 14 s)"
proof -
  have len: "length (take 14 s) = 14" using assms(1) by simp
  have "strftime dt =
          take 4 s @ ''-'' @ take 2 (drop 4 s) @ ''-'' @ take 2 (drop 6 s) @ '' '' @
          take 2 (drop 8 s) @ '':'' @ take 2 (drop 10 s) @ '':'' @ take 2 (drop 12 s)"
    using strptime_digits [OF len assms(2) dt yr] by (simp add: drop_take)
  then show ?thesis
    using format_cda_date_parsed [OF assms(1) dt] by simp
qed

lemma format_cda_date_examples:
  "format_cda_date ''20230615143000'' = ''2023-06-15 14:30:00''"
  "format_cda_date ''20230615143000-0500'' = ''2023-06-15 14:30:00 -0500''"
  "format_cda_date '''' = ''''"
  "format_cda_date ''2023'' = ''2023''"
  by code_simp+

text \<open>
  The wording of claim C2 against the code: a prefix of 14 digits that \<open>strptime\<close>
  accepts, with a year below 1000, is not written as \<open>YYYY-MM-DD HH:MM:SS\<close>, since
  the year loses its leading zeros; and a prefix that is not 14 digits, with the day
  written as a space and a digit, is accepted by \<open>strptime\<close> and rewritten, not
  returned unchanged.
\<close>

theorem format_cda_date_counterexample:
  "list_all is_digit ''09991231235959'' \<and>
   strptime ''09991231235959'' \<noteq> None \<and>
   format_cda_date ''09991231235959'' = ''999-12-31 23:59:59'' \<and>
   format_cda_date ''00010101000000+0100'' = ''1-01-01 00:00:00 +0100'' \<and>
   \<not> list_all is_digit ''202306 5143000'' \<and>
   format_cda_date ''202306 5143000'' = ''2023-06-05 14:30:00''"
  by code_simp

text \<open>
  Claim C2, amended. \<open>format_cda_date\<close> is total: the empty string gives the empty
  string; a string shorter than 14 characters, or one whose first 14 characters
  \<open>strptime\<close> rejects, is returned unchanged; when \<open>strptime\<close> accepts the first 14
  characters the result is the \<open>strftime\<close> text, followed by a space and the rest of
  the string when there is a rest. For a prefix of 14 digits with a year of 1000 or more
  that text is \<open>YYYY-MM-DD HH:MM:SS\<close> with the digits of the input. The four examples
  of the specification evaluate as stated.
\<close>

theorem format_cda_date_total:
  "format_cda_date [] = [] \<and>
   (length s < 14 \<longrightarrow> format_cda_date s = s) \<and>
   (strptime (take 14 s) = None \<longrightarrow> format_cda_date s = s) \<and>
   (\<forall>dt. 14 \<le> length s \<and> strptime (take 14 s) = Some dt \<longrightarrow>
      format_cda_date s = strftime dt @ (if drop 14 s = [] then [] else '' '' @ drop 14 s)) \<and>
   (\<forall>dt. 14 \<le> length s \<and> (\<forall>c\<in>set (take 14 s). is_digit c) \<and>
         strptime (take 14 s) = Some dt \<and> 1000 \<le> year dt \<longrightarrow>
      format_cda_date s =
        take 4 s @ ''-'' @ take 2 (drop 4 s) @ ''-'' @ take 2 (drop 6 s) @ '' '' @
        take 2 (drop 8 s) @ '':'' @ take 2 (drop 10 s) @ '':'' @ take 2 (drop 12 s) @
        (if drop 14 s = [] then [] else '' '' @ drop 14 s)) \<and>
   format_cda_date ''20230615143000'' = ''2023-06-15 14:30:00'' \<and>
   format_cda_date ''20230615143000-0500'' = ''2023-06-15 14:30:00 -0500'' \<and>
   format_cda_date '''' = '''' \<and>
   format_cda_date ''2023'' = ''2023''"
  using format_cda_date_empty format_cda_date_short [of s] format_cda_date_unparsed [of s]
    format_cda_date_parsed [of s] format_cda_date_digits [of s] format_cda_date_examples
  by blast

theorem format_cda_date_total_witness:
  "format_cda_date ''20231231235959+0100'' = ''2023-12-31 23:59:59 +0100'' \<and>
   strptime ''20231231235959'' =
     Some \<lparr>year = 2023, month = 12, day = 31, hour = 23, minute = 59, second = 59\<rparr> \<and>
   format_cda_date ''2023123123595'' = ''2023123123595'' \<and>
   strptime ''20230231120000'' = None \<and>
   format_cda_date ''20230231120000'' = ''20230231120000''"
proof -
  let ?s = "''20231231235959+0100''"
  let ?dt = "\<lparr>year = 2023, month = 12, day = 31, hour = 23, minute = 59, second = 59\<rparr>"
  have l: "14 \<le> length ?s" by simp
  have d: "\<forall>c\<in>set (take 14 ?s). is_digit c" by (simp add: is_digit_def)
  have p: "strptime (take 14 ?s) = Some ?dt" by code_simp
  have y: "1000 \<le> year ?dt" by simp
  have "format_cda_date ?s =
        take 4 ?s @ ''-'' @ take 2 (drop 4 ?s) @ ''-'' @ take 2 (drop 6 ?s) @ '' '' @
        take 2 (drop 8 ?s) @ '':'' @ take 2 (drop 10 ?s) @ '':'' @ take 2 (drop 12 ?s) @
        (if drop 14 ?s = [] then [] else '' '' @ drop 14 ?s)"
    using format_cda_date_total [of ?s] l d p y by blast
  then have a: "format_cda_date ?s = ''2023-12-31 23:59:59 +0100''" by simp
  have b: "strptime ''20231231235959'' = Some ?dt" using p by simp
  have "length ''2023123123595'' < 14" by simp
  with format_cda_date_total [of "''2023123123595''"]
  have c: "format_cda_date ''2023123123595'' = ''2023123123595''" by blast
  have n: "strptime ''20230231120000'' = None" by code_simp
  then have "strptime (take 14 ''20230231120000'') = None" by simp
  with format_cda_date_total [of "''20230231120000''"]
  have e: "format_cda_date ''20230231120000'' = ''20230231120000''" by blast
  from a b c n e show ?thesis by blast
qed

section \<open>The loops and the shared dedup path\<close>

lemma xml_event_store:
  "store (fst (xml_event e (s, c, l, w))) = offer (xml_observation e) (store s)"
  by (simp add: xml_event_def xml_observation_def store_def identity_key_of_def Let_def
      split: option.splits)

lemma cda_event_store:
  "store (fst (cda_event t e (s, c, l))) = offer (cda_observation e) (store s)"
  by (simp add: cda_event_def cda_observation_def cda_dates_def store_def identity_key_of_def
      Let_def split: option.splits prod.splits)

lemma ecg_file_step_store:
  "store (fst (ecg_file_step t f (s, c))) = offer (ecg_observation f) (store s)"
  by (simp add: ecg_file_step_def ecg_observation_def store_def identity_key_of_def Let_def
      split: ecg_file.splits)

lemma xml_event_count:
  "xml_event e (s, c, l, w) = (s', c', l', w') \<Longrightarrow>
   length (records s') + c = length (records s) + c'"
  by (auto simp: xml_event_def Let_def split: option.splits if_splits)

lemma cda_event_count:
  "cda_event t e (s, c, l) = (s', c', l') \<Longrightarrow>
   length (records s') + c = length (records s) + c'"
  by (auto simp: cda_event_def Let_def split: option.splits if_splits prod.splits)

lemma ecg_file_step_count:
  "ecg_file_step t f (s, c) = (s', c') \<Longrightarrow>
   length (records s') + c = length (records s) + c'"
  by (auto simp: ecg_file_step_def Let_def split: ecg_file.splits if_splits)

lemma xml_fold_store:
  "store (fst (fold xml_event es st)) = fold (\<lambda>e. offer (xml_observation e)) es (store (fst st))"
proof (induction es arbitrary: st)
  case Nil
  show ?case by simp
next
  case (Cons e es)
  obtain s c l w where st: "st = (s, c, l, w)" by (cases st) auto
  show ?case using Cons.IH [of "xml_event e st"] by (simp add: st xml_event_store)
qed

lemma cda_fold_store:
  "store (fst (fold (cda_event t) es st)) = fold (\<lambda>e. offer (cda_observation e)) es (store (fst st))"
proof (induction es arbitrary: st)
  case Nil
  show ?case by simp
next
  case (Cons e es)
  obtain s c l where st: "st = (s, c, l)" by (cases st) auto
  show ?case using Cons.IH [of "cda_event t e st"] by (simp add: st cda_event_store)
qed

lemma ecg_fold_store:
  "store (fst (fold (ecg_file_step t) fs st)) = fold (\<lambda>f. offer (ecg_observation f)) fs (store (fst st))"
proof (induction fs arbitrary: st)
  case Nil
  show ?case by simp
next
  case (Cons f fs)
  obtain s c where st: "st = (s, c)" by (cases st) auto
  show ?case using Cons.IH [of "ecg_file_step t f st"] by (simp add: st ecg_file_step_store)
qed

lemma xml_fold_count:
  "fold xml_event es (s, c, l, w) = (s', c', l', w') \<Longrightarrow>
   length (records s') + c = length (records s) + c'"
proof (induction es arbitrary: s c l w)
  case Nil
  then show ?case by simp
next
  case (Cons e es)
  obtain s1 c1 l1 w1 where step: "xml_event e (s, c, l, w) = (s1, c1, l1, w1)"
    by (cases "xml_event e (s, c, l, w)") auto
  from Cons.prems have "fold xml_event es (s1, c1, l1, w1) = (s', c', l', w')"
    by (simp add: step)
  from Cons.IH [OF this] xml_event_count [OF step] show ?case by arith
qed

lemma cda_fold_count:
  "fold (cda_event t) es (s, c, l) = (s', c', l') \<Longrightarrow>
   length (records s') + c = length (records s) + c'"
proof (induction es arbitrary: s c l)
  case Nil
  then show ?case by simp
next
  case (Cons e es)
  obtain s1 c1 l1 where step: "cda_event t e (s, c, l) = (s1, c1, l1)"
    by (cases "cda_event t e (s, c, l)") auto
  from Cons.prems have "fold (cda_event t) es (s1, c1, l1) = (s', c', l')"
    by (simp add: step)
  from Cons.IH [OF this] cda_event_count [OF step] show ?case by arith
qed

lemma ecg_fold_count:
  "fold (ecg_file_step t) fs (s, c) = (s', c') \<Longrightarrow>
   length (records s') + c = length (records s) + c'"
proof (induction fs arbitrary: s c)
  case Nil
  then show ?case by simp
next
  case (Cons f fs)
  obtain s1 c1 where step: "ecg_file_step t f (s, c) = (s1, c1)"
    by (cases "ecg_file_step t f (s, c)") auto
  from Cons.prems have "fold (ecg_file_step t) fs (s1, c1) = (s', c')"
    by (simp add: step)
  from Cons.IH [OF this] ecg_file_step_count [OF step] show ?case by arith
qed

lemma offer_bijection: "in_bijection st \<Longrightarrow> in_bijection (offer ob st)"
  by (cases ob; cases st) (auto simp: in_bijection_def)

lemma fold_offer_bijection:
  "in_bijection st \<Longrightarrow> in_bijection (fold (\<lambda>e. offer (f e)) es st)"
  by (induction es arbitrary: st) (simp_all add: offer_bijection)



lemma fold_offer_map_filter:
  "fold (\<lambda>e. offer (f e)) es st = fold (\<lambda>r. offer (Some r)) (List.map_filter f es) st"
proof (induction es arbitrary: st)
  case Nil
  show ?case by (simp add: List.map_filter_simps)
next
  case (Cons e es)
  then show ?case by (cases "f e") (simp_all add: List.map_filter_simps)
qed

lemma store_console [simp]: "store (s\<lparr>console := c\<rparr>) = store s"
  by (simp add: store_def)

lemma parse_export_xml_store:
  "store (fst (parse_export_xml f s)) =
   fold (\<lambda>r. offer (Some r)) (List.map_filter xml_observation (fst f)) (store s)"
proof -
  let ?s0 = "s\<lparr>console := console s @ [Processing ''export.xml'']\<rparr>"
  obtain s' c l w where r: "fold xml_event (fst f) (?s0, 0, 0, 0) = (s', c, l, w)"
    by (cases "fold xml_event (fst f) (?s0, 0, 0, 0)") auto
  have "store s' = fold (\<lambda>e. offer (xml_observation e)) (fst f) (store s)"
    using xml_fold_store [of "fst f" "(?s0, 0, 0, 0)"] by (simp add: r)
  then show ?thesis
    by (simp add: parse_export_xml_def r fold_offer_map_filter [of xml_observation]
        split: stream_end.splits)
qed

lemma parse_export_cda_xml_store:
  "store (fst (parse_export_cda_xml f s)) =
   fold (\<lambda>r. offer (Some r)) (List.map_filter cda_observation (fst f)) (store s)"
proof -
  let ?s0 = "s\<lparr>console := console s @ [Processing ''export_cda.xml'']\<rparr>"
  obtain s' c l where r: "fold (cda_event (length (records s))) (fst f) (?s0, 0, 0) = (s', c, l)"
    by (cases "fold (cda_event (length (records s))) (fst f) (?s0, 0, 0)") auto
  have "store s' = fold (\<lambda>e. offer (cda_observation e)) (fst f) (store s)"
    using cda_fold_store [of "length (records s)" "fst f" "(?s0, 0, 0)"] by (simp add: r)
  then show ?thesis
    by (simp add: parse_export_cda_xml_def r fold_offer_map_filter [of cda_observation]
        split: stream_end.splits)
qed

lemma parse_ecg_files_store:
  "store (fst (parse_ecg_files fs s)) =
   fold (\<lambda>r. offer (Some r)) (List.map_filter ecg_observation fs) (store s)"
proof -
  let ?s0 = "s\<lparr>console := console s @ [ProcessingEcg]\<rparr>"
  obtain s' c where r: "fold (ecg_file_step (length (records s))) fs (?s0, 0) = (s', c)"
    by (cases "fold (ecg_file_step (length (records s))) fs (?s0, 0)") auto
  have "store s' = fold (\<lambda>f. offer (ecg_observation f)) fs (store s)"
    using ecg_fold_store [of "length (records s)" fs "(?s0, 0)"] by (simp add: r)
  then show ?thesis
    by (simp add: parse_ecg_files_def r fold_offer_map_filter [of ecg_observation])
qed

lemma parse_export_xml_count:
  assumes "parse_export_xml f s = (s', Inr n)"
  shows "length (records s') = length (records s) + n"
proof -
  let ?s0 = "s\<lparr>console := console s @ [Processing ''export.xml'']\<rparr>"
  obtain s1 c l w where r: "fold xml_event (fst f) (?s0, 0, 0, 0) = (s1, c, l, w)"
    by (cases "fold xml_event (fst f) (?s0, 0, 0, 0)") auto
  from xml_fold_count [OF r] have "length (records s1) = length (records s) + c" by simp
  with assms show ?thesis
    by (auto simp: parse_export_xml_def r split: stream_end.splits)
qed

lemma parse_export_cda_xml_count:
  assumes "parse_export_cda_xml f s = (s', res)"
  shows "res = Inr (length (records s') - length (records s)) \<and>
         length (records s) \<le> length (records s')"
proof -
  let ?s0 = "s\<lparr>console := console s @ [Processing ''export_cda.xml'']\<rparr>"
  obtain s1 c l where r: "fold (cda_event (length (records s))) (fst f) (?s0, 0, 0) = (s1, c, l)"
    by (cases "fold (cda_event (length (records s))) (fst f) (?s0, 0, 0)") auto
  from cda_fold_count [OF r] have "length (records s1) = length (records s) + c" by simp
  with assms show ?thesis
    by (auto simp: parse_export_cda_xml_def r split: stream_end.splits)
qed

lemma parse_ecg_files_count:
  assumes "parse_ecg_files fs s = (s', res)"
  shows "res = Inr (length (records s') - length (records s)) \<and>
         length (records s) \<le> length (records s')"
proof -
  let ?s0 = "s\<lparr>console := console s @ [ProcessingEcg]\<rparr>"
  obtain s1 c where r: "fold (ecg_file_step (length (records s))) fs (?s0, 0) = (s1, c)"
    by (cases "fold (ecg_file_step (length (records s))) fs (?s0, 0)") auto
  from ecg_fold_count [OF r] have "length (records s1) = length (records s) + c" by simp
  with assms show ?thesis
    by (auto simp: parse_ecg_files_def r)
qed

section \<open>The driver: proofs\<close>

lemma run_source_xml_store:
  "store (fst (run_source nm src parse_export_xml s)) =
   fold (\<lambda>r. offer (Some r))
     (case src of None \<Rightarrow> [] | Some f \<Rightarrow> List.map_filter xml_observation (fst f)) (store s)"
  by (cases src) (simp_all add: run_source_def parse_export_xml_store)

lemma run_source_cda_store:
  "store (fst (run_source nm src parse_export_cda_xml s)) =
   fold (\<lambda>r. offer (Some r))
     (case src of None \<Rightarrow> [] | Some f \<Rightarrow> List.map_filter cda_observation (fst f)) (store s)"
  by (cases src) (simp_all add: run_source_def parse_export_cda_xml_store)

lemma run_source_ecg_store:
  "store (fst (run_source nm src parse_ecg_files s)) =
   fold (\<lambda>r. offer (Some r))
     (case src of None \<Rightarrow> [] | Some fs \<Rightarrow> List.map_filter ecg_observation fs) (store s)"
  by (cases src) (simp_all add: run_source_def parse_ecg_files_store)

lemma run_source_xml_count:
  "run_source nm src parse_export_xml s = (s', Inr n) \<Longrightarrow>
   length (records s') = length (records s) + n"
  by (cases src) (auto simp: run_source_def dest: parse_export_xml_count)

lemma run_source_cda_count:
  "run_source nm src parse_export_cda_xml s = (s', res) \<Longrightarrow>
   \<exists>n. res = Inr n \<and> length (records s') = length (records s) + n"
  by (cases src) (auto simp: run_source_def dest!: parse_export_cda_xml_count)

lemma run_source_ecg_count:
  "run_source nm src parse_ecg_files s = (s', res) \<Longrightarrow>
   \<exists>n. res = Inr n \<and> length (records s') = length (records s) + n"
  by (cases src) (auto simp: run_source_def dest!: parse_ecg_files_count)

lemma main_cases:
  obtains (abort) s1 e where
      "run_source ''export.xml'' (export_xml inp) parse_export_xml initial_state = (s1, Inl e)"
      "main inp = (s1, Inl e)"
    | (complete) s1 c1 s2 c2 s3 c3 where
      "run_source ''export.xml'' (export_xml inp) parse_export_xml initial_state = (s1, Inr c1)"
      "run_source ''export_cda.xml'' (export_cda_xml inp) parse_export_cda_xml s1 = (s2, Inr c2)"
      "run_source ''electrocardiograms'' (ecg_dir inp) parse_ecg_files s2 = (s3, Inr c3)"
      "records (fst (main inp)) = sort_key startDate (records s3)"
      "seen_keys (fst (main inp)) = seen_keys s3"
      "snd (main inp) = Inr (c1 + c2 + c3)"
      "console (fst (main inp)) = console s3 @ [Sorting (length (records s3)), Writing]"
proof -
  obtain s1 r1 where x: "run_source ''export.xml'' (export_xml inp) parse_export_xml initial_state = (s1, r1)"
    by (cases "run_source ''export.xml'' (export_xml inp) parse_export_xml initial_state") auto
  show thesis
  proof (cases r1)
    case (Inl e)
    with x have "main inp = (s1, Inl e)" by (simp add: main_def)
    with x Inl abort show thesis by blast
  next
    case (Inr c1)
    obtain s2 r2 where c: "run_source ''export_cda.xml'' (export_cda_xml inp) parse_export_cda_xml s1 = (s2, r2)"
      by (cases "run_source ''export_cda.xml'' (export_cda_xml inp) parse_export_cda_xml s1") auto
    from run_source_cda_count [OF c] obtain c2 where r2: "r2 = Inr c2" by blast
    obtain s3 r3 where g: "run_source ''electrocardiograms'' (ecg_dir inp) parse_ecg_files s2 = (s3, r3)"
      by (cases "run_source ''electrocardiograms'' (ecg_dir inp) parse_ecg_files s2") auto
    from run_source_ecg_count [OF g] obtain c3 where r3: "r3 = Inr c3" by blast
    have "records (fst (main inp)) = sort_key startDate (records s3)"
      "seen_keys (fst (main inp)) = seen_keys s3"
      "snd (main inp) = Inr (c1 + c2 + c3)"
      "console (fst (main inp)) = console s3 @ [Sorting (length (records s3)), Writing]"
      using x c g by (simp_all add: main_def Inr r2 r3 Let_def)
    with x c g Inr r2 r3 complete show thesis by blast
  qed
qed

lemma in_bijection_initial: "in_bijection (store initial_state)"
  by (simp add: in_bijection_def store_def initial_state_def)

lemma fold_offer_Some_bijection:
  "in_bijection st \<Longrightarrow> in_bijection (fold (\<lambda>r. offer (Some r)) rs st)"
  using fold_offer_bijection [of st Some rs] by simp


lemma in_bijection_sort:
  "in_bijection (rs, ks) \<Longrightarrow> in_bijection (sort_key f rs, ks)"
  by (simp add: in_bijection_def distinct_map)

lemma in_bijection_card:
  assumes "in_bijection (store s)"
  shows "length (records s) = card (seen_keys s)"
    and "\<forall>r\<in>set (records s). identity_key_of r \<in> seen_keys s"
proof -
  from assms have d: "distinct (map identity_key_of (records s))"
    and e: "set (map identity_key_of (records s)) = seen_keys s"
    by (simp_all add: in_bijection_def store_def)
  from distinct_card [OF d] e show "length (records s) = card (seen_keys s)" by simp
  from e show "\<forall>r\<in>set (records s). identity_key_of r \<in> seen_keys s" by auto
qed

lemma main_store:
  "snd (main inp) = Inr n \<Longrightarrow>
   \<exists>rs. (rs, seen_keys (fst (main inp))) =
           fold (\<lambda>r. offer (Some r)) (observations inp) ([], {}) \<and>
        records (fst (main inp)) = sort_key startDate rs"
proof (cases inp rule: main_cases)
  case (abort s1 e)
  assume "snd (main inp) = Inr n"
  with abort show ?thesis by simp
next
  case (complete s1 c1 s2 c2 s3 c3)
  have "store s3 = fold (\<lambda>r. offer (Some r)) (observations inp) (store initial_state)"
    using run_source_xml_store [of "''export.xml''" "export_xml inp" initial_state]
      run_source_cda_store [of "''export_cda.xml''" "export_cda_xml inp" s1]
      run_source_ecg_store [of "''electrocardiograms''" "ecg_dir inp" s2]
    by (simp add: complete observations_def)
  then show ?thesis
    using complete by (auto simp: store_def initial_state_def)
qed

lemma main_bijection: "in_bijection (store (fst (main inp)))"
proof (cases inp rule: main_cases)
  case (abort s1 e)
  have "in_bijection (store s1)"
    using run_source_xml_store [of "''export.xml''" "export_xml inp" initial_state]
      fold_offer_Some_bijection [OF in_bijection_initial]
    by (simp add: abort)
  with abort show ?thesis by simp
next
  case (complete s1 c1 s2 c2 s3 c3)
  have "in_bijection (store s1)"
    using run_source_xml_store [of "''export.xml''" "export_xml inp" initial_state]
      fold_offer_Some_bijection [OF in_bijection_initial]
    by (simp add: complete)
  then have "in_bijection (store s2)"
    using run_source_cda_store [of "''export_cda.xml''" "export_cda_xml inp" s1]
      fold_offer_Some_bijection
    by (simp add: complete)
  then have "in_bijection (store s3)"
    using run_source_ecg_store [of "''electrocardiograms''"  "ecg_dir inp" s2]
      fold_offer_Some_bijection
    by (simp add: complete)
  then show ?thesis
    using in_bijection_sort [of "records s3" "seen_keys s3" startDate]
    by (simp add: store_def complete)
qed


lemma main_completes:
  assumes "case export_xml inp of None \<Rightarrow> True | Some f \<Rightarrow> snd f = EndOfDocument"
  shows "\<exists>n. snd (main inp) = Inr n"
proof (cases inp rule: main_cases)
  case (abort s1 e)
  from abort(1) assms have False
    by (cases "export_xml inp")
      (auto simp: run_source_def parse_export_xml_def split: prod.splits stream_end.splits)
  then show ?thesis ..
next
  case (complete s1 c1 s2 c2 s3 c3)
  then show ?thesis by blast
qed

lemma main_total:
  assumes "snd (main inp) = Inr n"
  shows "n = length (records (fst (main inp)))"
proof (cases inp rule: main_cases)
  case (abort s1 e)
  with assms show ?thesis by simp
next
  case (complete s1 c1 s2 c2 s3 c3)
  from run_source_xml_count [OF complete(1)] have "length (records s1) = c1"
    by (simp add: initial_state_def)
  moreover from run_source_cda_count [OF complete(2)]
  have "length (records s2) = length (records s1) + c2" by simp
  moreover from run_source_ecg_count [OF complete(3)]
  have "length (records s3) = length (records s2) + c3" by simp
  ultimately show ?thesis using assms complete(4,6) by simp
qed

lemma example_xml_observations:
  "List.map_filter xml_observation example_xml = [example_steps, example_workout]"
  by (simp add: example_xml_def List.map_filter_simps xml_observation_def elem_get_def
      TARGET_TYPES_def workout_value_def example_steps_def example_workout_def)

lemma example_cda_dates:
  "format_cda_date ''20230615143000'' = ''2023-06-15 14:30:00''"
  "format_cda_date ''20230615143100'' = ''2023-06-15 14:31:00''"
  "format_cda_date ''20230101080000+0100'' = ''2023-01-01 08:00:00 +0100''"
  by code_simp+

lemma example_cda_observations:
  "List.map_filter cda_observation example_cda = [example_steps, example_heart]"
  by (simp add: example_cda_def List.map_filter_simps cda_observation_def cda_dates_def
      elem_find_def elem_get_def TARGET_TYPES_def example_cda_dates example_steps_def
      example_heart_def)

lemma example_ecg_observations:
  "List.map_filter ecg_observation example_ecg = [example_session, example_session]"
  by (simp add: example_ecg_def List.map_filter_simps ecg_observation_def ecg_lines_def
      ecg_metadata_def strip_def strip_with_def is_space_def split_comma_def strip_quotes_def
      dict_get_def Let_def example_session_def)

lemma example_observations:
  "observations example_inputs =
     [example_steps, example_workout, example_steps, example_heart, example_session,
      example_session]"
  by (simp add: observations_def example_inputs_def example_xml_observations
      example_cda_observations example_ecg_observations)

lemma example_keys_differ:
  "identity_key_of example_steps \<noteq> identity_key_of example_workout"
  "identity_key_of example_steps \<noteq> identity_key_of example_heart"
  "identity_key_of example_steps \<noteq> identity_key_of example_session"
  "identity_key_of example_workout \<noteq> identity_key_of example_heart"
  "identity_key_of example_workout \<noteq> identity_key_of example_session"
  "identity_key_of example_heart \<noteq> identity_key_of example_session"
  by (simp_all add: identity_key_of_def example_steps_def example_workout_def example_heart_def
      example_session_def)

lemma example_fold:
  "fst (fold (\<lambda>r. offer (Some r)) (observations example_inputs) ([], {})) =
     [example_steps, example_workout, example_heart, example_session]"
  using example_keys_differ by (simp add: example_observations eq_commute)

lemma example_sort:
  "sort_key startDate [example_steps, example_workout, example_heart, example_session] =
     [example_heart, example_workout, example_session, example_steps]"
  by (simp add: example_steps_def example_workout_def example_heart_def example_session_def)

lemma example_result: "\<exists>n. snd (main example_inputs) = Inr n"
  by (rule main_completes) (simp add: example_inputs_def)

lemma example_records:
  "records (fst (main example_inputs)) =
     [example_heart, example_workout, example_session, example_steps]"
proof -
  from example_result obtain n where "snd (main example_inputs) = Inr n" ..
  from main_store [OF this] obtain rs where
    "(rs, seen_keys (fst (main example_inputs))) =
       fold (\<lambda>r. offer (Some r)) (observations example_inputs) ([], {})"
    "records (fst (main example_inputs)) = sort_key startDate rs"
    by blast
  then show ?thesis
    using example_fold example_sort by (metis fst_conv)
qed

lemma example_total: "snd (main example_inputs) = Inr 4"
proof -
  from example_result obtain n where n: "snd (main example_inputs) = Inr n" ..
  from main_total [OF n] have "n = 4" by (simp add: example_records)
  with n show ?thesis by simp
qed

section \<open>The shared list and the index\<close>

lemma fold_xml_bijection:
  "in_bijection (store s) \<Longrightarrow> in_bijection (store (fst (fold xml_event es (s, c, l, w))))"
  by (simp add: xml_fold_store fold_offer_bijection)

lemma fold_cda_bijection:
  "in_bijection (store s) \<Longrightarrow> in_bijection (store (fst (fold (cda_event t) es (s, c, l))))"
  by (simp add: cda_fold_store fold_offer_bijection)

lemma fold_ecg_bijection:
  "in_bijection (store s) \<Longrightarrow> in_bijection (store (fst (fold (ecg_file_step t) fs (s, c))))"
  by (simp add: ecg_fold_store fold_offer_bijection)

text \<open>
  Claim C10. The list of records and the index are in bijection at every point of a run:
  each loop body either leaves both unchanged or adds one key to the index and appends
  one record with that key; so from a state in bijection every prefix of events of each
  parser leads to a state in bijection, the number of records is the number of keys, and
  the key of every record is in the index. The driver starts from the empty list and
  the empty index, and its final state (also the state in which an exception leaves it)
  is in bijection.
\<close>

theorem records_index_bijection:
  "store (fst (xml_event e (s, c, l, w))) = offer (xml_observation e) (store s) \<and>
   store (fst (cda_event t e (s, c, l))) = offer (cda_observation e) (store s) \<and>
   store (fst (ecg_file_step t f (s, c))) = offer (ecg_observation f) (store s) \<and>
   (in_bijection (store s) \<longrightarrow>
      in_bijection (store (fst (fold xml_event es (s, c, l, w)))) \<and>
      in_bijection (store (fst (fold (cda_event t) es (s, c, l)))) \<and>
      in_bijection (store (fst (fold (ecg_file_step t) fs (s, c)))) \<and>
      length (records s) = card (seen_keys s) \<and>
      (\<forall>r\<in>set (records s). identity_key_of r \<in> seen_keys s)) \<and>
   in_bijection (store initial_state) \<and>
   in_bijection (store (fst (main inp))) \<and>
   length (records (fst (main inp))) = card (seen_keys (fst (main inp))) \<and>
   (\<forall>r\<in>set (records (fst (main inp))). identity_key_of r \<in> seen_keys (fst (main inp)))"
  by (intro conjI impI)
    (simp_all add: xml_event_store cda_event_store ecg_file_step_store fold_xml_bijection
      fold_cda_bijection fold_ecg_bijection in_bijection_card in_bijection_initial
      main_bijection)

theorem records_index_bijection_witness:
  "in_bijection (store initial_state) \<and>
   in_bijection (store (fst (fold xml_event example_xml (initial_state, 0, 0, 0)))) \<and>
   in_bijection (store (fst (fold (cda_event 0) example_cda (initial_state, 0, 0)))) \<and>
   in_bijection (store (fst (fold (ecg_file_step 0) example_ecg (initial_state, 0)))) \<and>
   length (records (fst (main example_inputs))) = 4 \<and>
   card (seen_keys (fst (main example_inputs))) = 4"
proof -
  note t = records_index_bijection [of undefined initial_state 0 0 0 0 undefined example_xml
      example_ecg example_inputs]
  note u = records_index_bijection [of undefined initial_state 0 0 0 0 undefined example_cda
      example_ecg example_inputs]
  have i: "in_bijection (store initial_state)" using t by blast
  have a: "in_bijection (store (fst (fold xml_event example_xml (initial_state, 0, 0, 0))))"
    using t i by blast
  have b: "in_bijection (store (fst (fold (cda_event 0) example_cda (initial_state, 0, 0))))"
    using u i by blast
  have c: "in_bijection (store (fst (fold (ecg_file_step 0) example_ecg (initial_state, 0))))"
    using t i by blast
  have d: "length (records (fst (main example_inputs))) = 4"
    by (simp add: example_records)
  have "length (records (fst (main example_inputs))) = card (seen_keys (fst (main example_inputs)))"
    using t by blast
  with i a b c d show ?thesis by simp
qed

text \<open>
  Claim C3. When the driver completes, the rows are in non-decreasing order of their
  startDate strings, compared as strings (lexicographically, character by character).
\<close>

theorem output_sorted_by_startDate:
  "snd (main inp) = Inr n \<Longrightarrow>
   sorted (map startDate (records (fst (main inp)))) \<and>
   sorted (map (\<lambda>row. row ! 1) (output_rows inp))"
proof -
  assume "snd (main inp) = Inr n"
  from main_store [OF this] obtain rs where
    "records (fst (main inp)) = sort_key startDate rs" by blast
  then have s: "sorted (map startDate (records (fst (main inp))))" by simp
  have "map (\<lambda>row. row ! 1) (output_rows inp) = map startDate (records (fst (main inp)))"
    by (simp add: output_rows_def csv_row_def)
  with s show ?thesis by simp
qed

theorem output_sorted_by_startDate_witness:
  "snd (main example_inputs) = Inr 4 \<and>
   sorted (map startDate (records (fst (main example_inputs)))) \<and>
   map startDate (records (fst (main example_inputs))) =
     [''2023-01-01 08:00:00 +0100'', ''2023-02-01 07:00:00'', ''2023-03-05 09:10:11 +0100'',
      ''2023-06-15 14:30:00'']"
  using output_sorted_by_startDate [OF example_total] example_total
  by (simp add: example_records example_heart_def example_workout_def example_session_def
      example_steps_def)

section \<open>The counts the parsers return\<close>

lemma parse_export_xml_returns:
  "snd f = EndOfDocument \<Longrightarrow> \<exists>n. snd (parse_export_xml f s) = Inr n"
  by (simp add: parse_export_xml_def split: prod.splits)

lemma store_initial: "store initial_state = ([], {})"
  by (simp add: store_def initial_state_def)

lemma example_store_xml:
  "store (fst (run_source ''export.xml'' (export_xml example_inputs) parse_export_xml
      initial_state)) =
   ([example_steps, example_workout],
    {identity_key_of example_workout, identity_key_of example_steps})"
  using example_keys_differ
  by (simp add: run_source_xml_store example_inputs_def example_xml_observations store_initial)

lemma example_store_cda:
  assumes "store s = ([example_steps, example_workout],
    {identity_key_of example_workout, identity_key_of example_steps})"
  shows "store (fst (run_source ''export_cda.xml'' (export_cda_xml example_inputs)
      parse_export_cda_xml s)) =
   ([example_steps, example_workout, example_heart],
    {identity_key_of example_heart, identity_key_of example_workout,
     identity_key_of example_steps})"
  using example_keys_differ
  by (simp add: run_source_cda_store example_inputs_def example_cda_observations assms
      eq_commute)

lemma example_store_ecg:
  assumes "store s = ([example_steps, example_workout, example_heart],
    {identity_key_of example_heart, identity_key_of example_workout,
     identity_key_of example_steps})"
  shows "store (fst (run_source ''electrocardiograms'' (ecg_dir example_inputs)
      parse_ecg_files s)) =
   ([example_steps, example_workout, example_heart, example_session],
    {identity_key_of example_session, identity_key_of example_heart,
     identity_key_of example_workout, identity_key_of example_steps})"
  using example_keys_differ
  by (simp add: run_source_ecg_store example_inputs_def example_ecg_observations assms
      eq_commute)

lemma store_records: "store s = (rs, ks) \<Longrightarrow> records s = rs"
  by (simp add: store_def)

lemma example_counts:
  "snd (run_source ''export.xml'' (export_xml example_inputs) parse_export_xml initial_state) =
     Inr 2"
  "snd (run_source ''export_cda.xml'' (export_cda_xml example_inputs) parse_export_cda_xml
     (fst (run_source ''export.xml'' (export_xml example_inputs) parse_export_xml
        initial_state))) = Inr 1"
  "snd (run_source ''electrocardiograms'' (ecg_dir example_inputs) parse_ecg_files
     (fst (run_source ''export_cda.xml'' (export_cda_xml example_inputs) parse_export_cda_xml
        (fst (run_source ''export.xml'' (export_xml example_inputs) parse_export_xml
           initial_state))))) = Inr 1"
proof -
  let ?r1 = "run_source ''export.xml'' (export_xml example_inputs) parse_export_xml initial_state"
  let ?r2 = "run_source ''export_cda.xml'' (export_cda_xml example_inputs) parse_export_cda_xml
     (fst ?r1)"
  let ?r3 = "run_source ''electrocardiograms'' (ecg_dir example_inputs) parse_ecg_files (fst ?r2)"
  obtain n where n: "snd ?r1 = Inr n"
    using parse_export_xml_returns [of "(example_xml, EndOfDocument)" initial_state]
    by (auto simp: run_source_def example_inputs_def)
  have "?r1 = (fst ?r1, Inr n)" using n by (metis prod.collapse)
  from run_source_xml_count [OF this] have "n = 2"
    by (simp add: store_records [OF example_store_xml] store_records [OF store_initial])
  with n show "snd ?r1 = Inr 2" by simp
  obtain n2 where "snd ?r2 = Inr n2"
    "length (records (fst ?r2)) = length (records (fst ?r1)) + n2"
    using run_source_cda_count [OF prod.collapse [symmetric], of "''export_cda.xml''"
        "export_cda_xml example_inputs" "fst ?r1"]
    by blast
  then show "snd ?r2 = Inr 1"
    by (simp add: store_records [OF example_store_cda [OF example_store_xml]]
        store_records [OF example_store_xml])
  obtain n3 where "snd ?r3 = Inr n3"
    "length (records (fst ?r3)) = length (records (fst ?r2)) + n3"
    using run_source_ecg_count [OF prod.collapse [symmetric], of "''electrocardiograms''"
        "ecg_dir example_inputs" "fst ?r2"]
    by blast
  then show "snd ?r3 = Inr 1"
    by (simp add: store_records [OF example_store_ecg [OF example_store_cda [OF example_store_xml]]]
        store_records [OF example_store_cda [OF example_store_xml]])
qed

text \<open>
  Claim C4. Each parser returns the number of records it appended to the shared list
  during the call, and when the driver completes, the sum of the three returned counts
  (an absent source counts zero) is \<open>total_count\<close> and is the number of records in the
  final list, that is the number of rows after the header.
\<close>

theorem parser_counts_sum:
  "(snd (parse_export_xml xf s) = Inr n \<longrightarrow>
      length (records (fst (parse_export_xml xf s))) = length (records s) + n) \<and>
   (snd (parse_export_cda_xml cf s) = Inr n \<longrightarrow>
      length (records (fst (parse_export_cda_xml cf s))) = length (records s) + n) \<and>
   (snd (parse_ecg_files fs s) = Inr n \<longrightarrow>
      length (records (fst (parse_ecg_files fs s))) = length (records s) + n) \<and>
   (let r1 = run_source ''export.xml'' (export_xml inp) parse_export_xml initial_state;
        r2 = run_source ''export_cda.xml'' (export_cda_xml inp) parse_export_cda_xml (fst r1);
        r3 = run_source ''electrocardiograms'' (ecg_dir inp) parse_ecg_files (fst r2)
    in snd r1 = Inr c1 \<and> snd r2 = Inr c2 \<and> snd r3 = Inr c3 \<longrightarrow>
         snd (main inp) = Inr (c1 + c2 + c3) \<and>
         length (records (fst (main inp))) = c1 + c2 + c3 \<and>
         length (output_rows inp) = c1 + c2 + c3) \<and>
   (snd (main inp) = Inr tc \<longrightarrow> tc = length (output_rows inp))"
proof -
  have x: "length (records (fst (parse_export_xml xf s))) = length (records s) + n"
    if "snd (parse_export_xml xf s) = Inr n"
    using parse_export_xml_count [of xf s "fst (parse_export_xml xf s)" n] that
    by (metis prod.collapse)
  have c: "length (records (fst (parse_export_cda_xml cf s))) = length (records s) + n"
    if "snd (parse_export_cda_xml cf s) = Inr n"
    using parse_export_cda_xml_count [OF prod.collapse [symmetric], of cf s] that
    by auto
  have g: "length (records (fst (parse_ecg_files fs s))) = length (records s) + n"
    if "snd (parse_ecg_files fs s) = Inr n"
    using parse_ecg_files_count [OF prod.collapse [symmetric], of fs s] that
    by auto
  have t: "tc = length (output_rows inp)" if "snd (main inp) = Inr tc"
    using main_total [OF that] by (simp add: output_rows_def)
  have m: "snd (main inp) = Inr (c1 + c2 + c3) \<and>
        length (records (fst (main inp))) = c1 + c2 + c3 \<and>
        length (output_rows inp) = c1 + c2 + c3"
    if "snd (run_source ''export.xml'' (export_xml inp) parse_export_xml initial_state) = Inr c1"
      "snd (run_source ''export_cda.xml'' (export_cda_xml inp) parse_export_cda_xml
         (fst (run_source ''export.xml'' (export_xml inp) parse_export_xml initial_state))) =
       Inr c2"
      "snd (run_source ''electrocardiograms'' (ecg_dir inp) parse_ecg_files
         (fst (run_source ''export_cda.xml'' (export_cda_xml inp) parse_export_cda_xml
           (fst (run_source ''export.xml'' (export_xml inp) parse_export_xml initial_state))))) =
       Inr c3"
  proof (cases inp rule: main_cases)
    case (abort s1 e)
    with that(1) show ?thesis by simp
  next
    case (complete s1 d1 s2 d2 s3 d3)
    with that have "d1 = c1" "d2 = c2" "d3 = c3" by simp_all
    with complete(6) have r: "snd (main inp) = Inr (c1 + c2 + c3)" by simp
    from main_total [OF r] r show ?thesis by (simp add: output_rows_def)
  qed
  from x c g t m show ?thesis by (simp add: Let_def)
qed

theorem parser_counts_sum_witness:
  "snd (run_source ''export.xml'' (export_xml example_inputs) parse_export_xml initial_state) =
     Inr 2 \<and>
   snd (run_source ''export_cda.xml'' (export_cda_xml example_inputs) parse_export_cda_xml
     (fst (run_source ''export.xml'' (export_xml example_inputs) parse_export_xml
        initial_state))) = Inr 1 \<and>
   snd (run_source ''electrocardiograms'' (ecg_dir example_inputs) parse_ecg_files
     (fst (run_source ''export_cda.xml'' (export_cda_xml example_inputs) parse_export_cda_xml
        (fst (run_source ''export.xml'' (export_xml example_inputs) parse_export_xml
           initial_state))))) = Inr 1 \<and>
   snd (main example_inputs) = Inr 4 \<and>
   length (output_rows example_inputs) = 4"
proof -
  have "snd (main example_inputs) = Inr (2 + 1 + 1) \<and>
        length (records (fst (main example_inputs))) = 2 + 1 + 1 \<and>
        length (output_rows example_inputs) = 2 + 1 + 1"
    using parser_counts_sum [of undefined undefined 0 undefined undefined example_inputs 2 1 1 0]
      example_counts
    by (simp add: Let_def)
  with example_counts show ?thesis by simp
qed

section \<open>The attribute-XML parser: proofs\<close>

lemma xml_event_not_target:
  assumes "tag e = ''Record''" "\<forall>t. map_of (attrib e) ''type'' = Some t \<longrightarrow> t \<notin> TARGET_TYPES"
  shows "xml_event e (s, c, l, w) = (s, c, l, w)"
  using assms by (simp add: xml_event_def split: option.splits)

lemma xml_event_workout_new:
  assumes "tag e = ''Workout''"
    and "r = \<lparr>creationDate = elem_get e ''creationDate'' '''',
              startDate = elem_get e ''startDate'' '''',
              endDate = elem_get e ''endDate'' '''',
              rtype = elem_get e ''workoutActivityType'' '''',
              rvalue = Some (workout_value e)\<rparr>"
    and "identity_key_of r \<notin> seen_keys s"
  shows "records (fst (xml_event e (s, c, l, w))) = records s @ [r]"
    and "seen_keys (fst (xml_event e (s, c, l, w))) = insert (identity_key_of r) (seen_keys s)"
    and "snd (xml_event e (s, c, l, w)) = (c + 1, l, w + 1)"
  using assms by (simp_all add: xml_event_def identity_key_of_def Let_def)

lemma xml_event_workout_seen:
  assumes "tag e = ''Workout''"
    and "r = \<lparr>creationDate = elem_get e ''creationDate'' '''',
              startDate = elem_get e ''startDate'' '''',
              endDate = elem_get e ''endDate'' '''',
              rtype = elem_get e ''workoutActivityType'' '''',
              rvalue = Some (workout_value e)\<rparr>"
    and "identity_key_of r \<in> seen_keys s"
  shows "xml_event e (s, c, l, w) = (s, c, l, w)"
  using assms by (simp add: xml_event_def identity_key_of_def Let_def)

text \<open>
  Claim C5. In the attribute-XML parser a Record element whose type attribute is absent
  or not in \<open>TARGET_TYPES\<close> changes nothing: the list, the index, the console and the
  three counters stay as they were. A Workout element is never tested against
  \<open>TARGET_TYPES\<close>: it offers a record whose type is its workoutActivityType attribute
  (the empty string when absent); when the key is new the record is appended, the key
  added and \<open>count\<close> and \<open>workout_count\<close> incremented, and when the key is in the index
  already nothing changes. In both cases the key is in the index afterwards.
\<close>

theorem record_filter_and_workouts:
  "(tag e = ''Record'' \<and> (\<forall>t. map_of (attrib e) ''type'' = Some t \<longrightarrow> t \<notin> TARGET_TYPES) \<longrightarrow>
      xml_event e (s, c, l, w) = (s, c, l, w) \<and> xml_observation e = None) \<and>
   (tag e = ''Workout'' \<and>
    r = \<lparr>creationDate = elem_get e ''creationDate'' '''',
          startDate = elem_get e ''startDate'' '''',
          endDate = elem_get e ''endDate'' '''',
          rtype = elem_get e ''workoutActivityType'' '''',
          rvalue = Some (workout_value e)\<rparr> \<longrightarrow>
      xml_observation e = Some r \<and>
      identity_key_of r \<in> seen_keys (fst (xml_event e (s, c, l, w))) \<and>
      (identity_key_of r \<notin> seen_keys s \<longrightarrow>
         records (fst (xml_event e (s, c, l, w))) = records s @ [r] \<and>
         seen_keys (fst (xml_event e (s, c, l, w))) = insert (identity_key_of r) (seen_keys s) \<and>
         snd (xml_event e (s, c, l, w)) = (c + 1, l, w + 1)) \<and>
      (identity_key_of r \<in> seen_keys s \<longrightarrow> xml_event e (s, c, l, w) = (s, c, l, w)))"
proof (intro conjI impI)
  assume a: "tag e = ''Record'' \<and> (\<forall>t. map_of (attrib e) ''type'' = Some t \<longrightarrow> t \<notin> TARGET_TYPES)"
  then show "xml_event e (s, c, l, w) = (s, c, l, w)"
    using xml_event_not_target by blast
  from a show "xml_observation e = None"
    by (simp add: xml_observation_def split: option.splits)
next
  assume a: "tag e = ''Workout'' \<and>
    r = \<lparr>creationDate = elem_get e ''creationDate'' '''',
          startDate = elem_get e ''startDate'' '''',
          endDate = elem_get e ''endDate'' '''',
          rtype = elem_get e ''workoutActivityType'' '''',
          rvalue = Some (workout_value e)\<rparr>"
  then have t: "tag e = ''Workout''" and r: "r = \<lparr>creationDate = elem_get e ''creationDate'' '''',
          startDate = elem_get e ''startDate'' '''',
          endDate = elem_get e ''endDate'' '''',
          rtype = elem_get e ''workoutActivityType'' '''',
          rvalue = Some (workout_value e)\<rparr>"
    by simp_all
  from t r show o: "xml_observation e = Some r"
    by (simp add: xml_observation_def)
  show "identity_key_of r \<in> seen_keys (fst (xml_event e (s, c, l, w)))"
    using xml_event_workout_new(2) [OF t r] xml_event_workout_seen [OF t r]
    by (cases "identity_key_of r \<in> seen_keys s") auto
  {
    assume n: "identity_key_of r \<notin> seen_keys s"
    show "records (fst (xml_event e (s, c, l, w))) = records s @ [r]"
      by (rule xml_event_workout_new(1) [OF t r n])
    show "seen_keys (fst (xml_event e (s, c, l, w))) = insert (identity_key_of r) (seen_keys s)"
      by (rule xml_event_workout_new(2) [OF t r n])
    show "snd (xml_event e (s, c, l, w)) = (c + 1, l, w + 1)"
      by (rule xml_event_workout_new(3) [OF t r n])
  }
  {
    assume "identity_key_of r \<in> seen_keys s"
    then show "xml_event e (s, c, l, w) = (s, c, l, w)"
      by (rule xml_event_workout_seen [OF t r])
  }
qed

theorem record_filter_and_workouts_witness:
  "xml_event (example_xml ! 1) (initial_state, 0, 0, 0) = (initial_state, 0, 0, 0) \<and>
   ''HKWorkoutActivityTypeRunning'' \<notin> TARGET_TYPES \<and>
   records (fst (xml_event (example_xml ! 2) (initial_state, 0, 0, 0))) = [example_workout] \<and>
   snd (xml_event (example_xml ! 2) (initial_state, 0, 0, 0)) = (1, 0, 1)"
proof -
  let ?e = "example_xml ! 1"
  have "tag ?e = ''Record'' \<and> (\<forall>t. map_of (attrib ?e) ''type'' = Some t \<longrightarrow> t \<notin> TARGET_TYPES)"
    by (simp add: example_xml_def TARGET_TYPES_def)
  with record_filter_and_workouts [of ?e initial_state 0 0 0]
  have a: "xml_event ?e (initial_state, 0, 0, 0) = (initial_state, 0, 0, 0)" by blast
  let ?w = "example_xml ! 2"
  have b: "tag ?w = ''Workout'' \<and>
    example_workout = \<lparr>creationDate = elem_get ?w ''creationDate'' '''',
          startDate = elem_get ?w ''startDate'' '''',
          endDate = elem_get ?w ''endDate'' '''',
          rtype = elem_get ?w ''workoutActivityType'' '''',
          rvalue = Some (workout_value ?w)\<rparr>"
    by (simp add: example_xml_def example_workout_def elem_get_def workout_value_def)
  have c: "identity_key_of example_workout \<notin> seen_keys initial_state"
    by (simp add: initial_state_def)
  from record_filter_and_workouts [of ?w initial_state 0 0 0 example_workout] b c
  have "records (fst (xml_event ?w (initial_state, 0, 0, 0))) = records initial_state @ [example_workout] \<and>
        snd (xml_event ?w (initial_state, 0, 0, 0)) = (0 + 1, 0, 0 + 1)"
    by blast
  moreover have "''HKWorkoutActivityTypeRunning'' \<notin> TARGET_TYPES"
    by (simp add: TARGET_TYPES_def)
  ultimately show ?thesis using a by (simp add: initial_state_def)
qed

section \<open>The clinical-document parser: proofs\<close>

lemma offer_extends: "\<exists>added. fst (offer ob st) = fst st @ added"
  by (cases ob; cases st) auto

lemma fold_offer_extends:
  "\<exists>added. fst (fold (\<lambda>r. offer (Some r)) rs st) = fst st @ added"
proof (induction rs arbitrary: st)
  case Nil
  show ?case by simp
next
  case (Cons r rs)
  from offer_extends [of "Some r" st] obtain a where a: "fst (offer (Some r) st) = fst st @ a" ..
  from Cons.IH [of "offer (Some r) st"] obtain b where
    "fst (fold (\<lambda>r. offer (Some r)) rs (offer (Some r) st)) = fst (offer (Some r) st) @ b" ..
  with a show ?case by simp
qed

lemma parse_export_cda_xml_end:
  "store (fst (parse_export_cda_xml (es, ParseError) s)) =
     store (fst (parse_export_cda_xml (es, EndOfDocument) s))"
  "snd (parse_export_cda_xml (es, ParseError) s) = snd (parse_export_cda_xml (es, EndOfDocument) s)"
  by (simp_all add: parse_export_cda_xml_def store_def split: prod.splits)

lemma parse_export_cda_xml_warns:
  "WarnCdaMalformed \<in> set (console (fst (parse_export_cda_xml (es, ParseError) s)))"
  by (simp add: parse_export_cda_xml_def split: prod.splits)

lemma ecg_file_step_console:
  "set (console s) \<subseteq> set (console (fst (ecg_file_step t f (s, c))))"
  by (auto simp: ecg_file_step_def Let_def split: ecg_file.splits)

lemma ecg_fold_console:
  "set (console (fst st)) \<subseteq> set (console (fst (fold (ecg_file_step t) fs st)))"
proof (induction fs arbitrary: st)
  case Nil
  show ?case by simp
next
  case (Cons f fs)
  obtain s c where st: "st = (s, c)" by (cases st) auto
  from ecg_file_step_console [of s t f c] Cons.IH [of "ecg_file_step t f st"]
  show ?case by (auto simp: st)
qed

lemma run_source_ecg_console:
  "set (console s) \<subseteq> set (console (fst (run_source nm src parse_ecg_files s)))"
proof (cases src)
  case None
  then show ?thesis by (auto simp: run_source_def)
next
  case (Some fs)
  let ?s0 = "s\<lparr>console := console s @ [ProcessingEcg]\<rparr>"
  from ecg_fold_console [of "(?s0, 0)" "length (records s)" fs]
  show ?thesis
    by (auto simp: Some run_source_def parse_ecg_files_def split: prod.splits)
qed

lemma main_console:
  assumes "run_source ''export.xml'' (export_xml inp) parse_export_xml initial_state = (s1, Inr c1)"
  shows "set (console (fst (run_source ''export_cda.xml'' (export_cda_xml inp)
           parse_export_cda_xml s1))) \<subseteq> set (console (fst (main inp)))"
proof (cases inp rule: main_cases)
  case (abort s1' e)
  with assms show ?thesis by simp
next
  case (complete s1' c1' s2 c2 s3 c3)
  from complete(1) assms have "s1' = s1" by simp
  with complete(2) have "fst (run_source ''export_cda.xml'' (export_cda_xml inp)
      parse_export_cda_xml s1) = s2"
    by simp
  moreover from run_source_ecg_console [of s2 "''electrocardiograms''" "ecg_dir inp"] complete(3)
  have "set (console s2) \<subseteq> set (console s3)" by simp
  ultimately show ?thesis using complete(7) by auto
qed

text \<open>
  Claim C7. When the iteration over export_cda.xml ends with a ParseError,
  \<open>parse_export_cda_xml\<close> still returns: its result is a count, never an exception. The
  records appended before the error stay in the shared list (the list is the old one
  followed by the added records, and the returned count is their number), list, index
  and count are what the same events give when the document ends normally, and the
  warning is printed. The driver goes on: when export.xml is absent or well-formed,
  \<open>main\<close> completes and its console holds the warning.
\<close>

theorem cda_parse_error_keeps_records:
  "(\<exists>added. records (fst (parse_export_cda_xml (es, ParseError) s)) = records s @ added \<and>
       snd (parse_export_cda_xml (es, ParseError) s) = Inr (length added)) \<and>
   store (fst (parse_export_cda_xml (es, ParseError) s)) =
     fold (\<lambda>r. offer (Some r)) (List.map_filter cda_observation es) (store s) \<and>
   store (fst (parse_export_cda_xml (es, ParseError) s)) =
     store (fst (parse_export_cda_xml (es, EndOfDocument) s)) \<and>
   snd (parse_export_cda_xml (es, ParseError) s) =
     snd (parse_export_cda_xml (es, EndOfDocument) s) \<and>
   WarnCdaMalformed \<in> set (console (fst (parse_export_cda_xml (es, ParseError) s))) \<and>
   (export_cda_xml inp = Some (es, ParseError) \<and>
    (case export_xml inp of None \<Rightarrow> True | Some f \<Rightarrow> snd f = EndOfDocument) \<longrightarrow>
      (\<exists>n. snd (main inp) = Inr n) \<and> WarnCdaMalformed \<in> set (console (fst (main inp))))"
proof -
  let ?p = "parse_export_cda_xml (es, ParseError) s"
  have st: "store (fst ?p) =
      fold (\<lambda>r. offer (Some r)) (List.map_filter cda_observation es) (store s)"
    using parse_export_cda_xml_store [of "(es, ParseError)" s] by simp
  from fold_offer_extends [of "List.map_filter cda_observation es" "store s"]
  obtain added where
    "fst (fold (\<lambda>r. offer (Some r)) (List.map_filter cda_observation es) (store s)) =
       fst (store s) @ added" ..
  then have "fst (store (fst ?p)) = fst (store s) @ added" by (simp only: st)
  then have "records (fst ?p) = records s @ added" by (simp add: store_def)
  moreover from parse_export_cda_xml_count [OF prod.collapse [symmetric], of "(es, ParseError)" s]
  have "snd ?p = Inr (length (records (fst ?p)) - length (records s))" by simp
  ultimately have a: "\<exists>added. records (fst ?p) = records s @ added \<and> snd ?p = Inr (length added)"
    by auto
  have m: "(\<exists>n. snd (main inp) = Inr n) \<and> WarnCdaMalformed \<in> set (console (fst (main inp)))"
    if c: "export_cda_xml inp = Some (es, ParseError)"
      and x: "case export_xml inp of None \<Rightarrow> True | Some f \<Rightarrow> snd f = EndOfDocument"
  proof -
    from main_completes [OF x] obtain n where n: "snd (main inp) = Inr n" ..
    have "\<exists>s1 c1. run_source ''export.xml'' (export_xml inp) parse_export_xml initial_state =
        (s1, Inr c1)"
      using n by (cases inp rule: main_cases) auto
    then obtain s1 c1 where
      "run_source ''export.xml'' (export_xml inp) parse_export_xml initial_state = (s1, Inr c1)"
      by blast
    from main_console [OF this] parse_export_cda_xml_warns [of es s1]
    have "WarnCdaMalformed \<in> set (console (fst (main inp)))"
      by (auto simp: c run_source_def)
    with n show ?thesis by blast
  qed
  from a st m parse_export_cda_xml_end [of es s] parse_export_cda_xml_warns [of es s]
  show ?thesis by blast
qed

theorem cda_parse_error_keeps_records_witness:
  "records (fst (parse_export_cda_xml (example_cda, ParseError) initial_state)) =
     [example_steps, example_heart] \<and>
   snd (parse_export_cda_xml (example_cda, ParseError) initial_state) = Inr 2 \<and>
   WarnCdaMalformed \<in> set (console (fst (parse_export_cda_xml (example_cda, ParseError)
     initial_state))) \<and>
   snd (main example_inputs) = Inr 4 \<and>
   WarnCdaMalformed \<in> set (console (fst (main example_inputs)))"
proof -
  note t = cda_parse_error_keeps_records [of example_cda initial_state example_inputs]
  let ?p = "parse_export_cda_xml (example_cda, ParseError) initial_state"
  from t have "store (fst ?p) =
     fold (\<lambda>r. offer (Some r)) (List.map_filter cda_observation example_cda)
       (store initial_state)"
    by blast
  then have "store (fst ?p) = ([example_steps, example_heart],
      {identity_key_of example_heart, identity_key_of example_steps})"
    using example_keys_differ by (simp add: example_cda_observations store_initial)
  then have r: "records (fst ?p) = [example_steps, example_heart]"
    by (rule store_records)
  from t obtain added where "records (fst ?p) = records initial_state @ added"
    "snd ?p = Inr (length added)" by blast
  with r have "added = [example_steps, example_heart]" by (simp add: initial_state_def)
  with \<open>snd ?p = Inr (length added)\<close> have c: "snd ?p = Inr 2" by simp
  have w: "WarnCdaMalformed \<in> set (console (fst ?p))" using t by blast
  have "export_cda_xml example_inputs = Some (example_cda, ParseError) \<and>
    (case export_xml example_inputs of None \<Rightarrow> True | Some f \<Rightarrow> snd f = EndOfDocument)"
    by (simp add: example_inputs_def)
  with t have "WarnCdaMalformed \<in> set (console (fst (main example_inputs)))" by blast
  with r c w example_total show ?thesis by blast
qed

lemma cda_event_new:
  assumes "cda_observation e = Some r" "identity_key_of r \<notin> seen_keys s"
  shows "records (fst (cda_event t e (s, c, l))) = records s @ [r]"
    and "seen_keys (fst (cda_event t e (s, c, l))) = insert (identity_key_of r) (seen_keys s)"
  using cda_event_store [of t e s c l] assms by (simp_all add: store_def)

lemma cda_observation_value:
  assumes "tag e = ''{urn:hl7-org:v3}observation''"
    "elem_find e ''{urn:hl7-org:v3}text'' = Some te"
    "elem_find te ''{urn:hl7-org:v3}type'' = Some ty"
    "elem_text ty = Some rt" "rt \<in> TARGET_TYPES"
  shows "\<exists>r. cda_observation e = Some r \<and> rtype r = rt \<and>
           rvalue r = (case elem_find te ''{urn:hl7-org:v3}value'' of
                         Some ve \<Rightarrow> elem_text ve | None \<Rightarrow> Some [])"
  using assms by (simp add: cda_observation_def)

text \<open>
  Claim C9. In the clinical-document parser the value of an accepted observation is the
  text of the value element, so it is None when that element has no text, and it is the
  empty string only when there is no value element. Two accepted observations that differ
  in nothing else therefore have different identity keys, both are appended when neither
  key is in the index, and both are written with the same five cells.
\<close>

theorem cda_empty_value_is_None:
  "(tag e = ''{urn:hl7-org:v3}observation'' \<and>
    elem_find e ''{urn:hl7-org:v3}text'' = Some te \<and>
    elem_find te ''{urn:hl7-org:v3}type'' = Some ty \<and>
    elem_text ty = Some rt \<and> rt \<in> TARGET_TYPES \<longrightarrow>
      (\<exists>r. cda_observation e = Some r \<and> rtype r = rt \<and>
           (\<forall>ve. elem_find te ''{urn:hl7-org:v3}value'' = Some ve \<and> elem_text ve = None \<longrightarrow>
                 rvalue r = None) \<and>
           (elem_find te ''{urn:hl7-org:v3}value'' = None \<longrightarrow> rvalue r = Some []) \<and>
           (identity_key_of r \<notin> seen_keys s \<longrightarrow>
              records (fst (cda_event t e (s, c, l))) = records s @ [r]))) \<and>
   (cda_observation e1 = Some r1 \<and> cda_observation e2 = Some r2 \<and>
    rvalue r1 = None \<and> r2 = r1\<lparr>rvalue := Some []\<rparr> \<and>
    identity_key_of r1 \<notin> seen_keys s \<and> identity_key_of r2 \<notin> seen_keys s \<longrightarrow>
      identity_key_of r1 \<noteq> identity_key_of r2 \<and>
      records (fst (fold (cda_event t) [e1, e2] (s, c, l))) = records s @ [r1, r2] \<and>
      csv_row r1 = csv_row r2)"
proof (intro conjI impI)
  assume "tag e = ''{urn:hl7-org:v3}observation'' \<and>
    elem_find e ''{urn:hl7-org:v3}text'' = Some te \<and>
    elem_find te ''{urn:hl7-org:v3}type'' = Some ty \<and>
    elem_text ty = Some rt \<and> rt \<in> TARGET_TYPES"
  then obtain r where r: "cda_observation e = Some r" "rtype r = rt"
    "rvalue r = (case elem_find te ''{urn:hl7-org:v3}value'' of
                   Some ve \<Rightarrow> elem_text ve | None \<Rightarrow> Some [])"
    using cda_observation_value [of e te ty rt] by blast
  have "identity_key_of r \<notin> seen_keys s \<longrightarrow>
      records (fst (cda_event t e (s, c, l))) = records s @ [r]"
    using cda_event_new(1) [OF r(1)] by blast
  with r show "\<exists>r. cda_observation e = Some r \<and> rtype r = rt \<and>
           (\<forall>ve. elem_find te ''{urn:hl7-org:v3}value'' = Some ve \<and> elem_text ve = None \<longrightarrow>
                 rvalue r = None) \<and>
           (elem_find te ''{urn:hl7-org:v3}value'' = None \<longrightarrow> rvalue r = Some []) \<and>
           (identity_key_of r \<notin> seen_keys s \<longrightarrow>
              records (fst (cda_event t e (s, c, l))) = records s @ [r])"
    by auto
next
  assume a: "cda_observation e1 = Some r1 \<and> cda_observation e2 = Some r2 \<and>
    rvalue r1 = None \<and> r2 = r1\<lparr>rvalue := Some []\<rparr> \<and>
    identity_key_of r1 \<notin> seen_keys s \<and> identity_key_of r2 \<notin> seen_keys s"
  then show k: "identity_key_of r1 \<noteq> identity_key_of r2"
    by (auto simp: identity_key_of_def)
  from a show "csv_row r1 = csv_row r2"
    by (auto simp: csv_row_def)
  obtain s1 c1 l1 where s1: "cda_event t e1 (s, c, l) = (s1, c1, l1)"
    by (cases "cda_event t e1 (s, c, l)") auto
  from a cda_event_new [of e1 r1 s t c l] have
    "records s1 = records s @ [r1]" "seen_keys s1 = insert (identity_key_of r1) (seen_keys s)"
    by (simp_all add: s1)
  moreover from this a k have "identity_key_of r2 \<notin> seen_keys s1" by auto
  with a cda_event_new(1) [of e2 r2 s1 t c1 l1]
  have "records (fst (cda_event t e2 (s1, c1, l1))) = records s1 @ [r2]" by blast
  ultimately show "records (fst (fold (cda_event t) [e1, e2] (s, c, l))) = records s @ [r1, r2]"
    by (simp add: s1)
qed

lemma example_value_observations:
  "cda_observation example_empty_value = Some (example_rate None)"
  "cda_observation example_no_value = Some (example_rate (Some []))"
  by (simp_all add: example_empty_value_def example_no_value_def cda_observation_def
      cda_dates_def elem_find_def elem_get_def TARGET_TYPES_def example_cda_dates
      example_rate_def)

theorem cda_empty_value_is_None_witness:
  "cda_observation example_empty_value = Some (example_rate None) \<and>
   cda_observation example_no_value = Some (example_rate (Some [])) \<and>
   identity_key_of (example_rate None) \<noteq> identity_key_of (example_rate (Some [])) \<and>
   records (fst (fold (cda_event 0) [example_empty_value, example_no_value]
     (initial_state, 0, 0))) = [example_rate None, example_rate (Some [])] \<and>
   csv_row (example_rate None) = csv_row (example_rate (Some []))"
proof -
  have "cda_observation example_empty_value = Some (example_rate None) \<and>
    cda_observation example_no_value = Some (example_rate (Some [])) \<and>
    rvalue (example_rate None) = None \<and>
    example_rate (Some []) = (example_rate None)\<lparr>rvalue := Some []\<rparr> \<and>
    identity_key_of (example_rate None) \<notin> seen_keys initial_state \<and>
    identity_key_of (example_rate (Some [])) \<notin> seen_keys initial_state"
    by (simp add: example_value_observations example_rate_def initial_state_def)
  with cda_empty_value_is_None [where s = initial_state and t = 0 and c = 0 and l = 0
      and ?e1.0 = example_empty_value and ?r1.0 = "example_rate None"
      and ?e2.0 = example_no_value and ?r2.0 = "example_rate (Some [])"]
  have "identity_key_of (example_rate None) \<noteq> identity_key_of (example_rate (Some [])) \<and>
      records (fst (fold (cda_event 0) [example_empty_value, example_no_value]
        (initial_state, 0, 0))) = records initial_state @ [example_rate None, example_rate (Some [])] \<and>
      csv_row (example_rate None) = csv_row (example_rate (Some []))"
    by blast
  then show ?thesis
    by (simp add: example_value_observations initial_state_def)
qed

section \<open>The workout value\<close>

lemma nonempty_attr_get:
  "nonempty_attr e k = (if elem_get e k [] = [] then None else Some (elem_get e k []))"
  by (simp add: nonempty_attr_def elem_get_def split: option.splits)

text \<open>
  An attribute that is present and empty: \<open>elem.get('duration', '')\<close> is the empty
  string, the test \<open>if duration\<close> fails and no part is made, where the wording of
  claim C6 gives the part \<open>duration: min\<close>.
\<close>

theorem workout_value_counterexample:
  "map_of (attrib example_empty_duration) ''duration'' = Some [] \<and>
   claimed_workout_value example_empty_duration = ''duration: min'' \<and>
   workout_value example_empty_duration = [] \<and>
   xml_observation example_empty_duration =
     Some \<lparr>creationDate = [], startDate = [], endDate = [],
           rtype = ''HKWorkoutActivityTypeYoga'', rvalue = Some []\<rparr>"
  by (simp add: example_empty_duration_def claimed_workout_value_def workout_value_def
      xml_observation_def elem_get_def)

text \<open>
  Claim C6, amended. The value of a workout has the part
  \<open>duration:<duration> <durationUnit, default min>\<close> when the duration attribute is
  present and not empty, and the part
  \<open>calories:<totalEnergyBurned> <totalEnergyBurnedUnit, default Cal>\<close> when the
  totalEnergyBurned attribute is present and not empty; the parts are joined by \<open>; \<close>,
  and the value is the empty string when there is no part. It is the value of the record
  a Workout element offers. The example of the specification evaluates as stated.
\<close>

theorem workout_value_parts:
  "(\<forall>d c. nonempty_attr e ''duration'' = Some d \<and> nonempty_attr e ''totalEnergyBurned'' = Some c \<longrightarrow>
      workout_value e =
        ''duration:'' @ d @ '' '' @ elem_get e ''durationUnit'' ''min'' @ ''; '' @
        ''calories:'' @ c @ '' '' @ elem_get e ''totalEnergyBurnedUnit'' ''Cal'') \<and>
   (\<forall>d. nonempty_attr e ''duration'' = Some d \<and> nonempty_attr e ''totalEnergyBurned'' = None \<longrightarrow>
      workout_value e = ''duration:'' @ d @ '' '' @ elem_get e ''durationUnit'' ''min'') \<and>
   (\<forall>c. nonempty_attr e ''duration'' = None \<and> nonempty_attr e ''totalEnergyBurned'' = Some c \<longrightarrow>
      workout_value e = ''calories:'' @ c @ '' '' @ elem_get e ''totalEnergyBurnedUnit'' ''Cal'') \<and>
   (nonempty_attr e ''duration'' = None \<and> nonempty_attr e ''totalEnergyBurned'' = None \<longrightarrow>
      workout_value e = []) \<and>
   (tag e = ''Workout'' \<longrightarrow>
      (\<exists>r. xml_observation e = Some r \<and> rvalue r = Some (workout_value e))) \<and>
   workout_value (Element ''Workout''
       [(''duration'', ''30''), (''durationUnit'', ''min''), (''totalEnergyBurned'', ''250''),
        (''totalEnergyBurnedUnit'', ''Cal'')] None []) =
     ''duration:30 min; calories:250 Cal''"
proof (intro conjI allI impI)
  fix d c
  assume "nonempty_attr e ''duration'' = Some d \<and> nonempty_attr e ''totalEnergyBurned'' = Some c"
  then show "workout_value e =
        ''duration:'' @ d @ '' '' @ elem_get e ''durationUnit'' ''min'' @ ''; '' @
        ''calories:'' @ c @ '' '' @ elem_get e ''totalEnergyBurnedUnit'' ''Cal''"
    by (auto simp: nonempty_attr_get workout_value_def Let_def split: if_splits)
next
  fix d
  assume "nonempty_attr e ''duration'' = Some d \<and> nonempty_attr e ''totalEnergyBurned'' = None"
  then show "workout_value e = ''duration:'' @ d @ '' '' @ elem_get e ''durationUnit'' ''min''"
    by (auto simp: nonempty_attr_get workout_value_def Let_def split: if_splits)
next
  fix c
  assume "nonempty_attr e ''duration'' = None \<and> nonempty_attr e ''totalEnergyBurned'' = Some c"
  then show "workout_value e = ''calories:'' @ c @ '' '' @ elem_get e ''totalEnergyBurnedUnit'' ''Cal''"
    by (auto simp: nonempty_attr_get workout_value_def Let_def split: if_splits)
next
  assume "nonempty_attr e ''duration'' = None \<and> nonempty_attr e ''totalEnergyBurned'' = None"
  then show "workout_value e = []"
    by (auto simp: nonempty_attr_get workout_value_def Let_def split: if_splits)
next
  assume "tag e = ''Workout''"
  then show "\<exists>r. xml_observation e = Some r \<and> rvalue r = Some (workout_value e)"
    by (simp add: xml_observation_def)
next
  show "workout_value (Element ''Workout''
       [(''duration'', ''30''), (''durationUnit'', ''min''), (''totalEnergyBurned'', ''250''),
        (''totalEnergyBurnedUnit'', ''Cal'')] None []) =
     ''duration:30 min; calories:250 Cal''"
    by (simp add: workout_value_def elem_get_def)
qed

theorem workout_value_parts_witness:
  "nonempty_attr (example_xml ! 2) ''duration'' = Some ''30'' \<and>
   nonempty_attr (example_xml ! 2) ''totalEnergyBurned'' = Some ''250'' \<and>
   workout_value (example_xml ! 2) = ''duration:30 min; calories:250 Cal'' \<and>
   nonempty_attr example_empty_duration ''duration'' = None \<and>
   nonempty_attr example_empty_duration ''totalEnergyBurned'' = None \<and>
   workout_value example_empty_duration = []"
proof -
  have a: "nonempty_attr (example_xml ! 2) ''duration'' = Some ''30'' \<and>
    nonempty_attr (example_xml ! 2) ''totalEnergyBurned'' = Some ''250''"
    by (simp add: example_xml_def nonempty_attr_def)
  with workout_value_parts [of "example_xml ! 2"]
  have "workout_value (example_xml ! 2) =
      ''duration:'' @ ''30'' @ '' '' @ elem_get (example_xml ! 2) ''durationUnit'' ''min'' @ ''; '' @
      ''calories:'' @ ''250'' @ '' '' @ elem_get (example_xml ! 2) ''totalEnergyBurnedUnit'' ''Cal''"
    by blast
  then have b: "workout_value (example_xml ! 2) = ''duration:30 min; calories:250 Cal''"
    by (simp add: example_xml_def elem_get_def)
  have c: "nonempty_attr example_empty_duration ''duration'' = None \<and>
    nonempty_attr example_empty_duration ''totalEnergyBurned'' = None"
    by (simp add: example_empty_duration_def nonempty_attr_def)
  with workout_value_parts [of example_empty_duration]
  have "workout_value example_empty_duration = []" by blast
  with a b c show ?thesis by blast
qed

section \<open>The session-metadata parser: proofs\<close>

lemma ecg_file_step_new:
  assumes "ecg_observation f = Some r" "identity_key_of r \<notin> seen_keys s"
  shows "records (fst (ecg_file_step t f (s, c))) = records s @ [r]"
    and "seen_keys (fst (ecg_file_step t f (s, c))) = insert (identity_key_of r) (seen_keys s)"
    and "snd (ecg_file_step t f (s, c)) = c + 1"
proof -
  show "records (fst (ecg_file_step t f (s, c))) = records s @ [r]"
    "seen_keys (fst (ecg_file_step t f (s, c))) = insert (identity_key_of r) (seen_keys s)"
    using ecg_file_step_store [of t f s c] assms by (simp_all add: store_def)
  then have "length (records (fst (ecg_file_step t f (s, c)))) = length (records s) + 1"
    by simp
  with ecg_file_step_count [OF prod.collapse [symmetric], of t f s c]
  show "snd (ecg_file_step t f (s, c)) = c + 1" by simp
qed

lemma ecg_file_step_seen:
  assumes "ecg_observation f = Some r" "identity_key_of r \<in> seen_keys s"
  shows "ecg_file_step t f (s, c) = (s, c)"
  using assms
  by (auto simp: ecg_file_step_def ecg_observation_def identity_key_of_def Let_def
      split: ecg_file.splits if_splits)

lemma ecg_file_step_unreadable:
  "store (fst (ecg_file_step t Unreadable (s, c))) = store s"
  "snd (ecg_file_step t Unreadable (s, c)) = c"
  by (simp_all add: ecg_file_step_def)

lemma ecg_observation_unreadable: "ecg_observation Unreadable = None"
  by (simp add: ecg_observation_def)

lemma parse_ecg_files_skip:
  "store (fst (parse_ecg_files (fs1 @ Unreadable # fs2) s)) =
     store (fst (parse_ecg_files (fs1 @ fs2) s))"
  "snd (parse_ecg_files (fs1 @ Unreadable # fs2) s) = snd (parse_ecg_files (fs1 @ fs2) s)"
proof -
  show a: "store (fst (parse_ecg_files (fs1 @ Unreadable # fs2) s)) =
     store (fst (parse_ecg_files (fs1 @ fs2) s))"
    by (simp add: parse_ecg_files_store List.map_filter_def ecg_observation_unreadable)
  then have "records (fst (parse_ecg_files (fs1 @ Unreadable # fs2) s)) =
      records (fst (parse_ecg_files (fs1 @ fs2) s))"
    by (simp add: store_def)
  with parse_ecg_files_count [OF prod.collapse [symmetric], of "fs1 @ Unreadable # fs2" s]
    parse_ecg_files_count [OF prod.collapse [symmetric], of "fs1 @ fs2" s]
  show "snd (parse_ecg_files (fs1 @ Unreadable # fs2) s) = snd (parse_ecg_files (fs1 @ fs2) s)"
    by simp
qed

text \<open>
  A header that holds the Recorded Date key with an empty value: the dictionary has the
  key, \<open>metadata.get('Recorded Date', '')\<close> is the empty string, the test
  \<open>if recorded_date\<close> fails and no record is made, where the wording of claim C8 has a
  record built from that timestamp.
\<close>

theorem ecg_recorded_date_counterexample:
  "ecg_metadata (ecg_lines [''Name,Ann'' @ [CHR 0x0A], ''Recorded Date,'' @ [CHR 0x0A],
      ''Classification,Sinus Rhythm'' @ [CHR 0x0A]]) ''Recorded Date'' = Some [] \<and>
   ecg_observation example_empty_recorded_date = None \<and>
   ecg_file_step 0 example_empty_recorded_date (initial_state, 0) = (initial_state, 0)"
  by (simp add: example_empty_recorded_date_def ecg_file_step_def ecg_observation_def
      ecg_lines_def ecg_metadata_def strip_def strip_with_def is_space_def split_comma_def
      strip_quotes_def dict_get_def Let_def)

text \<open>
  Claim C8, amended. For a session file that can be read and whose header (its first
  eleven lines) gives a recorded timestamp that is not empty, the parser offers a record
  with creationDate, startDate and endDate equal to that timestamp, type ECG and the
  classification as value, the empty string when the header has no Classification key.
  The record goes through the shared dedup path: it is appended and counted when its key
  is new, and nothing changes when the key is in the index. A file that cannot be read
  leaves list, index and count as they are, the remaining files are processed as if it
  were not there, and \<open>parse_ecg_files\<close> always returns a count.
\<close>

theorem ecg_record_from_header:
  "(rd = dict_get (ecg_metadata (ecg_lines f)) ''Recorded Date'' '''' \<and> rd \<noteq> [] \<and>
    r = \<lparr>creationDate = rd, startDate = rd, endDate = rd, rtype = ''ECG'',
          rvalue = Some (dict_get (ecg_metadata (ecg_lines f)) ''Classification'' '''')\<rparr> \<longrightarrow>
      ecg_observation (Readable f) = Some r \<and>
      identity_key_of r \<in> seen_keys (fst (ecg_file_step t (Readable f) (s, c))) \<and>
      (identity_key_of r \<notin> seen_keys s \<longrightarrow>
         records (fst (ecg_file_step t (Readable f) (s, c))) = records s @ [r] \<and>
         snd (ecg_file_step t (Readable f) (s, c)) = c + 1) \<and>
      (identity_key_of r \<in> seen_keys s \<longrightarrow> ecg_file_step t (Readable f) (s, c) = (s, c)) \<and>
      (ecg_metadata (ecg_lines f) ''Classification'' = None \<longrightarrow> rvalue r = Some [])) \<and>
   store (fst (ecg_file_step t Unreadable (s, c))) = store s \<and>
   snd (ecg_file_step t Unreadable (s, c)) = c \<and>
   store (fst (parse_ecg_files (fs1 @ Unreadable # fs2) s)) =
     store (fst (parse_ecg_files (fs1 @ fs2) s)) \<and>
   snd (parse_ecg_files (fs1 @ Unreadable # fs2) s) = snd (parse_ecg_files (fs1 @ fs2) s) \<and>
   (\<exists>n. snd (parse_ecg_files fs s) = Inr n)"
proof -
  have a: "ecg_observation (Readable f) = Some r \<and>
      identity_key_of r \<in> seen_keys (fst (ecg_file_step t (Readable f) (s, c))) \<and>
      (identity_key_of r \<notin> seen_keys s \<longrightarrow>
         records (fst (ecg_file_step t (Readable f) (s, c))) = records s @ [r] \<and>
         snd (ecg_file_step t (Readable f) (s, c)) = c + 1) \<and>
      (identity_key_of r \<in> seen_keys s \<longrightarrow> ecg_file_step t (Readable f) (s, c) = (s, c)) \<and>
      (ecg_metadata (ecg_lines f) ''Classification'' = None \<longrightarrow> rvalue r = Some [])"
    if h: "rd = dict_get (ecg_metadata (ecg_lines f)) ''Recorded Date'' '''' \<and> rd \<noteq> [] \<and>
      r = \<lparr>creationDate = rd, startDate = rd, endDate = rd, rtype = ''ECG'',
            rvalue = Some (dict_get (ecg_metadata (ecg_lines f)) ''Classification'' '''')\<rparr>"
  proof -
    from h have o: "ecg_observation (Readable f) = Some r"
      by (auto simp: ecg_observation_def Let_def)
    have "identity_key_of r \<in> seen_keys (fst (ecg_file_step t (Readable f) (s, c)))"
      using ecg_file_step_new(2) [OF o, of s t c] ecg_file_step_seen [OF o, of s t c]
      by (cases "identity_key_of r \<in> seen_keys s") auto
    moreover from h have "ecg_metadata (ecg_lines f) ''Classification'' = None \<longrightarrow>
        rvalue r = Some []"
      by (auto simp: dict_get_def)
    ultimately show ?thesis
      using o ecg_file_step_new(1,3) [OF o, of s t c] ecg_file_step_seen [OF o, of s t c]
      by blast
  qed
  have "\<exists>n. snd (parse_ecg_files fs s) = Inr n"
    using parse_ecg_files_count [OF prod.collapse [symmetric], of fs s] by blast
  with a ecg_file_step_unreadable [of t s c] parse_ecg_files_skip [of fs1 fs2 s]
  show ?thesis by blast
qed

theorem ecg_record_from_header_witness:
  "dict_get (ecg_metadata (ecg_lines [''Recorded Date,2023-03-05 09:10:11 +0100'']))
     ''Recorded Date'' '''' = ''2023-03-05 09:10:11 +0100'' \<and>
   ecg_metadata (ecg_lines [''Recorded Date,2023-03-05 09:10:11 +0100'']) ''Classification'' =
     None \<and>
   records (fst (ecg_file_step 0 (Readable [''Recorded Date,2023-03-05 09:10:11 +0100''])
     (initial_state, 0))) =
     [\<lparr>creationDate = ''2023-03-05 09:10:11 +0100'', startDate = ''2023-03-05 09:10:11 +0100'',
       endDate = ''2023-03-05 09:10:11 +0100'', rtype = ''ECG'', rvalue = Some []\<rparr>] \<and>
   snd (ecg_file_step 0 (Readable [''Recorded Date,2023-03-05 09:10:11 +0100''])
     (initial_state, 0)) = 1"
proof -
  let ?f = "[''Recorded Date,2023-03-05 09:10:11 +0100'']"
  let ?rd = "''2023-03-05 09:10:11 +0100''"
  let ?r = "\<lparr>creationDate = ?rd, startDate = ?rd, endDate = ?rd, rtype = ''ECG'',
             rvalue = Some []\<rparr>"
  have m: "dict_get (ecg_metadata (ecg_lines ?f)) ''Recorded Date'' '''' = ?rd"
    "ecg_metadata (ecg_lines ?f) ''Classification'' = None"
    by (simp_all add: ecg_lines_def ecg_metadata_def strip_def strip_with_def is_space_def
        split_comma_def strip_quotes_def dict_get_def Let_def)
  then have h: "?rd = dict_get (ecg_metadata (ecg_lines ?f)) ''Recorded Date'' '''' \<and> ?rd \<noteq> [] \<and>
    ?r = \<lparr>creationDate = ?rd, startDate = ?rd, endDate = ?rd, rtype = ''ECG'',
          rvalue = Some (dict_get (ecg_metadata (ecg_lines ?f)) ''Classification'' '''')\<rparr>"
    by (simp add: dict_get_def)
  have n: "identity_key_of ?r \<notin> seen_keys initial_state"
    by (simp add: initial_state_def)
  from ecg_record_from_header [where rd = ?rd and f = ?f and r = ?r and s = initial_state
      and t = 0 and c = 0] h n
  have "records (fst (ecg_file_step 0 (Readable ?f) (initial_state, 0))) =
          records initial_state @ [?r] \<and>
        snd (ecg_file_step 0 (Readable ?f) (initial_state, 0)) = 0 + 1"
    by blast
  with m show ?thesis by (simp add: initial_state_def)
qed

section \<open>The rows of the output\<close>













end
